theory Spec2Isabelle
  imports Main "HOL-Library.Sublist"
begin

section \<open>Strings\<close>

text \<open>
  A Python \<open>str\<close> is modelled as a \<open>string\<close>; a \<open>char\<close> stands for the code point
  of the same number, so the model covers the code points below 256.
\<close>

definition newline :: char where
  "newline = CHR 0x0A"

text \<open>\<open>str.isspace\<close> on one character: the Unicode white space below 256.\<close>

definition isspace :: "char \<Rightarrow> bool" where
  "isspace c = (of_char c \<in> {9, 10, 11, 12, 13, 28, 29, 30, 31, 32, 133, 160 :: nat})"

text \<open>\<open>s.startswith(p)\<close>.\<close>

definition startswith :: "string \<Rightarrow> string \<Rightarrow> bool" where
  "startswith s p = prefix p s"

text \<open>\<open>s.lstrip()\<close>: drops the leading white space.\<close>

definition lstrip :: "string \<Rightarrow> string" where
  "lstrip s = dropWhile isspace s"

text \<open>
  The leftmost occurrence of a separator: the text before it and the text after it.
\<close>

fun find_sep :: "string \<Rightarrow> string \<Rightarrow> (string \<times> string) option" where
  "find_sep sep [] = (if sep = [] then Some ([], []) else None)"
| "find_sep sep (c # cs) =
     (if prefix sep (c # cs) then Some ([], drop (length sep) (c # cs))
      else (case find_sep sep cs of
              None \<Rightarrow> None
            | Some (a, b) \<Rightarrow> Some (c # a, b)))"

text \<open>\<open>s.split(sep, maxsplit)\<close> for a non-empty separator: at most \<open>maxsplit\<close> cuts, leftmost first.\<close>

fun split :: "string \<Rightarrow> nat \<Rightarrow> string \<Rightarrow> string list" where
  "split sep 0 s = [s]"
| "split sep (Suc n) s =
     (case find_sep sep s of
        None \<Rightarrow> [s]
      | Some (a, b) \<Rightarrow> a # split sep n b)"

text \<open>\<open>s.replace(old, new)\<close> for a non-empty \<open>old\<close>: every occurrence, left to right, without overlap.\<close>

function replace :: "string \<Rightarrow> string \<Rightarrow> string \<Rightarrow> string" where
  "replace old new [] = []"
| "replace old new (c # cs) =
     (if old \<noteq> [] \<and> prefix old (c # cs) then new @ replace old new (drop (length old) (c # cs))
      else c # replace old new cs)"
  by pat_completeness auto
termination
  by (relation "measure (\<lambda>(old, new, s). length s)") (auto simp: neq_Nil_conv)

text \<open>\<open>sep.join(xs)\<close>.\<close>

fun join :: "string \<Rightarrow> string list \<Rightarrow> string" where
  "join sep [] = []"
| "join sep [x] = x"
| "join sep (x # y # ys) = x @ sep @ join sep (y # ys)"

section \<open>Regular expressions\<close>

text \<open>
  The fragment of Python's \<open>re\<close> that the two scripts use: single characters, the classes
  \<open>[^c]\<close>, \<open>\s\<close> and \<open>.\<close>, greedy repetition of a class, capture groups that are not nested,
  and the anchors \<open>^\<close> and \<open>$\<close> under \<open>re.MULTILINE\<close>.
\<close>

datatype cls = Lit char | NotLit char | Space | Dot

fun cls_match :: "cls \<Rightarrow> char \<Rightarrow> bool" where
  "cls_match (Lit a) c = (c = a)"
| "cls_match (NotLit a) c = (c \<noteq> a)"
| "cls_match Space c = isspace c"
| "cls_match Dot c = (c \<noteq> newline)"

datatype item = One cls | Many nat cls | Open | Close | Bol | Eol

type_synonym regex = "item list"

definition lits :: "string \<Rightarrow> regex" where
  "lits s = map (\<lambda>c. One (Lit c)) s"

fun first_match :: "(nat \<Rightarrow> 'a option) \<Rightarrow> nat list \<Rightarrow> 'a option" where
  "first_match f [] = None"
| "first_match f (k # ks) = (case f k of Some r \<Rightarrow> Some r | None \<Rightarrow> first_match f ks)"

text \<open>
  The backtracking matcher, anchored at position \<open>i\<close> of \<open>s\<close>: the end of the match and
  the captured groups. \<open>Many n c\<close> is greedy: it takes the longest run first and gives
  characters back one at a time, down to \<open>n\<close>.
\<close>

fun rx_match :: "regex \<Rightarrow> string \<Rightarrow> nat \<Rightarrow> nat list \<Rightarrow> string list \<Rightarrow> (nat \<times> string list) option" where
  "rx_match [] s i opens caps = Some (i, caps)"
| "rx_match (One c # r) s i opens caps =
     (if i < length s \<and> cls_match c (s ! i) then rx_match r s (Suc i) opens caps else None)"
| "rx_match (Many n c # r) s i opens caps =
     first_match (\<lambda>k. rx_match r s (i + k) opens caps)
       (rev [n ..< Suc (length (takeWhile (cls_match c) (drop i s)))])"
| "rx_match (Open # r) s i opens caps = rx_match r s i (i # opens) caps"
| "rx_match (Close # r) s i opens caps =
     (case opens of
        [] \<Rightarrow> None
      | j # js \<Rightarrow> rx_match r s i js (caps @ [take (i - j) (drop j s)]))"
| "rx_match (Bol # r) s i opens caps =
     (if i = 0 \<or> (i \<le> length s \<and> s ! (i - 1) = newline) then rx_match r s i opens caps else None)"
| "rx_match (Eol # r) s i opens caps =
     (if i = length s \<or> (i < length s \<and> s ! i = newline) then rx_match r s i opens caps else None)"

text \<open>
  A replacement template: literal characters and group references \<open>\1\<close>, \<open>\2\<close>, ... Python
  rejects a reference to a group that the pattern does not have; the templates of the scripts
  have none, and \<open>expand\<close> puts nothing for one.
\<close>

datatype ritem = RLit char | RGroup nat

type_synonym template = "ritem list"

definition rlits :: "string \<Rightarrow> template" where
  "rlits s = map RLit s"

fun expand :: "template \<Rightarrow> string list \<Rightarrow> string" where
  "expand [] caps = []"
| "expand (RLit c # t) caps = c # expand t caps"
| "expand (RGroup k # t) caps =
     (if 0 < k \<and> k \<le> length caps then caps ! (k - 1) else []) @ expand t caps"

text \<open>
  \<open>re.sub(pattern, repl, s)\<close> from position \<open>i\<close> on: the leftmost match is replaced and the
  scan goes on behind it; where nothing matches, one character is copied. An empty match is
  replaced too and the scan moves on by one character; no pattern of the scripts matches the
  empty string.
\<close>

function sub_from :: "regex \<Rightarrow> template \<Rightarrow> string \<Rightarrow> nat \<Rightarrow> string" where
  "sub_from p t s i =
     (if length s < i then []
      else (case rx_match p s i [] [] of
              Some (j, caps) \<Rightarrow>
                if i < j then expand t caps @ sub_from p t s j
                else expand t caps @ (if i < length s then s ! i # sub_from p t s (Suc i) else [])
            | None \<Rightarrow> if i < length s then s ! i # sub_from p t s (Suc i) else []))"
  by pat_completeness auto
termination
  by (relation "measure (\<lambda>(p, t, s, i). Suc (length s) - i)") auto

definition re_sub :: "regex \<Rightarrow> template \<Rightarrow> string \<Rightarrow> string" where
  "re_sub p t s = sub_from p t s 0"

section \<open>The rewrite rules and the reference transformer\<close>

type_synonym rule = "regex \<times> template"

text \<open>The opening \<open>\[([^\]]+)\]\(\<close> of the four link patterns of \<open>sync_amplifier_core.py\<close>.\<close>

definition link_open :: regex where
  "link_open =
     [One (Lit CHR ''[''), Open, Many 1 (NotLit CHR '']''), Close, One (Lit CHR '']''), One (Lit CHR ''('')]"

text \<open>\<open>REFERENCE_PATTERNS\<close> of \<open>sync_amplifier_core.py\<close>, in the order of the source.\<close>

definition core_REFERENCE_PATTERNS :: "rule list" where
  "core_REFERENCE_PATTERNS =
     [(link_open @ lits ''DESIGN_PHILOSOPHY.md'' @ [One (Lit CHR '')'')],
       rlits ''['' @ [RGroup 1] @ rlits ''](@skills/amplifier-philosophy/SKILL.md)''),
      (link_open @ lits ''contracts/'' @ [Open, Many 1 (NotLit CHR '')''), Close, One (Lit CHR '')'')],
       rlits ''['' @ [RGroup 1] @ rlits ''](@skills/module-development/SKILL.md)''),
      (link_open @ lits ''MODULE_SOURCE_PROTOCOL.md'' @ [One (Lit CHR '')'')],
       rlits ''['' @ [RGroup 1] @ rlits ''](@skills/module-development/SKILL.md)''),
      (link_open @ lits ''../'' @ [Open, Many 1 (NotLit CHR '')''), Close, One (Lit CHR '')'')],
       rlits ''['' @ [RGroup 1] @ rlits ''](https://github.com/microsoft/amplifier-core/blob/main/''
         @ [RGroup 2] @ rlits '')'')]"

text \<open>\<open>REFERENCE_PATTERNS\<close> of \<open>sync_ddd.py\<close>, in the order of the source.\<close>

definition ddd_REFERENCE_PATTERNS :: "rule list" where
  "ddd_REFERENCE_PATTERNS =
     [(lits ''@ddd:context/'', rlits ''@skills/ddd-guide/references/''),
      (lits ''@ddd:'', rlits ''@skills/ddd-guide/references/''),
      (lits ''@foundation:IMPLEMENTATION_PHILOSOPHY.md'', rlits ''@skills/amplifier-philosophy/SKILL.md''),
      (lits ''@foundation:MODULAR_DESIGN_PHILOSOPHY.md'', rlits ''@skills/amplifier-philosophy/SKILL.md''),
      (lits ''@foundation:'', rlits ''@skills/amplifier-philosophy/'')]"

text \<open>A rule whose template refers only to groups that its pattern has.\<close>

definition rule_wellformed :: "rule \<Rightarrow> bool" where
  "rule_wellformed r =
     list_all (\<lambda>x. case x of RLit c \<Rightarrow> True
                      | RGroup k \<Rightarrow> 0 < k \<and> k \<le> length (filter (\<lambda>i. i = Open) (fst r)))
       (snd r)"

text \<open>
  The loop of \<open>transform_references\<close>, the same in both scripts:
  \<^verbatim>\<open>for pattern, replacement in REFERENCE_PATTERNS: result = re.sub(pattern, replacement, result)\<close>
\<close>

fun transform_loop :: "rule list \<Rightarrow> string \<Rightarrow> string" where
  "transform_loop [] result = result"
| "transform_loop ((pattern, replacement) # rest) result =
     transform_loop rest (re_sub pattern replacement result)"

definition core_transform_references :: "string \<Rightarrow> string" where
  "core_transform_references content = transform_loop core_REFERENCE_PATTERNS content"

definition ddd_transform_references :: "string \<Rightarrow> string" where
  "ddd_transform_references content = transform_loop ddd_REFERENCE_PATTERNS content"

section \<open>Credit banner and frontmatter\<close>

definition core_CREDIT_COMMENT :: string where
  "core_CREDIT_COMMENT =
     ''<!--\<newline>'' @
     ''  Source: https://github.com/microsoft/amplifier-core\<newline>'' @
     ''  License: MIT\<newline>'' @
     ''  Auto-synced for Claude Code Plugin format\<newline>'' @
     ''-->\<newline>'' @
     ''\<newline>''"

definition ddd_CREDIT_COMMENT :: string where
  "ddd_CREDIT_COMMENT =
     ''<!--\<newline>'' @
     ''  Source: https://github.com/robotdad/amplifier-collection-ddd\<newline>'' @
     ''  License: MIT\<newline>'' @
     ''  Auto-converted for Claude Code Plugin format\<newline>'' @
     ''-->\<newline>'' @
     ''\<newline>''"

definition PHILOSOPHY_FRONTMATTER :: string where
  "PHILOSOPHY_FRONTMATTER =
     ''---\<newline>'' @
     ''name: amplifier-philosophy\<newline>'' @
     ''description: Amplifier design philosophy using Linux kernel metaphor. Covers mechanism vs policy, module architecture, event-driven design, and kernel principles. Use when designing new modules or making architectural decisions.\<newline>'' @
     ''version: 1.0.0\<newline>'' @
     ''license: MIT\<newline>'' @
     ''metadata:\<newline>'' @
     ''  category: architecture\<newline>'' @
     ''  complexity: medium\<newline>'' @
     ''  original_source: https://github.com/microsoft/amplifier-core/blob/main/docs/DESIGN_PHILOSOPHY.md\<newline>'' @
     ''---\<newline>'' @
     ''\<newline>''"

definition MODULE_DEV_FRONTMATTER :: string where
  "MODULE_DEV_FRONTMATTER =
     ''---\<newline>'' @
     ''name: module-development\<newline>'' @
     ''description: Guide for creating new Amplifier modules including protocol implementation, entry points, mount functions, and testing patterns. Use when creating new modules or understanding module architecture.\<newline>'' @
     ''version: 1.0.0\<newline>'' @
     ''license: MIT\<newline>'' @
     ''metadata:\<newline>'' @
     ''  category: development\<newline>'' @
     ''  complexity: medium\<newline>'' @
     ''  original_source: https://github.com/microsoft/amplifier-core/tree/main/docs/contracts\<newline>'' @
     ''---\<newline>'' @
     ''\<newline>''"

definition SKILL_MD_TEMPLATE :: string where
  "SKILL_MD_TEMPLATE =
     ''---\<newline>'' @
     ''name: ddd-guide\<newline>'' @
     ''description: Document-Driven Development workflow for existing codebases. Provides systematic planning, documentation-first design, and implementation verification.\<newline>'' @
     ''version: 1.0.0\<newline>'' @
     ''license: MIT\<newline>'' @
     ''metadata:\<newline>'' @
     ''  category: workflow\<newline>'' @
     ''  complexity: high\<newline>'' @
     ''  original_source: https://github.com/robotdad/amplifier-collection-ddd\<newline>'' @
     ''---\<newline>'' @
     ''\<newline>'' @
     ''# Document-Driven Development (DDD) Guide\<newline>'' @
     ''\<newline>'' @
     ''## Core Principle\<newline>'' @
     ''\<newline>'' @
     ''**Documentation IS the specification. Code implements what documentation describes.**\<newline>'' @
     ''\<newline>'' @
     ''DDD inverts traditional development: update documentation first, then implement code to match.\<newline>'' @
     ''\<newline>'' @
     ''## Why DDD?\<newline>'' @
     ''\<newline>'' @
     ''- **Catches design flaws early** - Before expensive code changes\<newline>'' @
     ''- **Prevents documentation drift** - Docs and code stay synchronized\<newline>'' @
     ''- **Enables human review** - Humans approve specs, not code\<newline>'' @
     ''- **AI-friendly** - Clear specifications reduce hallucination\<newline>'' @
     ''\<newline>'' @
     ''## Six-Phase Workflow\<newline>'' @
     ''\<newline>'' @
     ''| Phase | Name | Command | Deliverable |\<newline>'' @
     ''|-------|------|---------|-------------|\<newline>'' @
     ''| 0-1 | Planning | /ddd 1-plan | plan.md |\<newline>'' @
     ''| 2 | Documentation | /ddd 2-docs | Updated docs |\<newline>'' @
     ''| 3 | Code Planning | /ddd 3-code-plan | code_plan.md |\<newline>'' @
     ''| 4 | Implementation | /ddd 4-code | Working code |\<newline>'' @
     ''| 5-6 | Finalization | /ddd 5-finish | Tested, committed |\<newline>'' @
     ''\<newline>'' @
     ''## Core Techniques\<newline>'' @
     ''\<newline>'' @
     ''### Retcon Writing\<newline>'' @
     ''\<newline>'' @
     ''Document features as if they already exist. No future tense.\<newline>'' @
     ''\<newline>'' @
     ''- Bad: \"This feature will add...\"\<newline>'' @
     ''- Good: \"This feature provides...\"\<newline>'' @
     ''\<newline>'' @
     ''### File Crawling\<newline>'' @
     ''\<newline>'' @
     ''Process files one at a time to avoid context overflow:\<newline>'' @
     ''\<newline>'' @
     ''1. Generate index with `[ ]` checkboxes\<newline>'' @
     ''2. Process one file per iteration\<newline>'' @
     ''3. Mark `[x]` when complete\<newline>'' @
     ''\<newline>'' @
     ''### Context Poisoning Prevention\<newline>'' @
     ''\<newline>'' @
     ''Eliminate contradictions:\<newline>'' @
     ''\<newline>'' @
     ''- One authoritative location per concept\<newline>'' @
     ''- Delete duplicates, don't update\<newline>'' @
     ''- Resolve conflicts before proceeding\<newline>'' @
     ''\<newline>'' @
     ''## When to Use DDD\<newline>'' @
     ''\<newline>'' @
     ''**Use DDD for:**\<newline>'' @
     ''- Multi-file changes\<newline>'' @
     ''- New features in existing codebases\<newline>'' @
     ''- Complex integrations\<newline>'' @
     ''\<newline>'' @
     ''**Skip DDD for:**\<newline>'' @
     ''- Typo fixes\<newline>'' @
     ''- Single-file changes\<newline>'' @
     ''- Emergency hotfixes\<newline>'' @
     ''\<newline>'' @
     ''## References\<newline>'' @
     ''\<newline>'' @
     ''See `@skills/ddd-guide/references/` for detailed documentation:\<newline>'' @
     ''\<newline>'' @
     ''- `core-concepts/` - Techniques and methodologies\<newline>'' @
     ''- `phases/` - Step-by-step phase guides\<newline>'' @
     ''- `philosophy/` - Underlying principles\<newline>'' @
     ''\<newline>'' @
     ''## Remember\<newline>'' @
     ''\<newline>'' @
     ''**Documentation first.** If it's not documented, it doesn't exist.\<newline>'' @
     ''\<newline>'' @
     ''**Retcon, don't predict.** Write as if the feature already exists.\<newline>'' @
     ''\<newline>'' @
     ''**One source of truth.** Delete duplicates, don't update them.\<newline>''"

text \<open>\<open>inject_credit\<close> of \<open>sync_amplifier_core.py\<close>.\<close>

definition core_inject_credit :: "string \<Rightarrow> string" where
  "core_inject_credit content = core_CREDIT_COMMENT @ content"

text \<open>\<open>inject_credit\<close> of \<open>sync_ddd.py\<close>.\<close>

definition ddd_inject_credit :: "string \<Rightarrow> string" where
  "ddd_inject_credit content =
     (if startswith content ''---'' \<and> 3 \<le> length (split ''---'' 2 content)
      then ''---'' @ split ''---'' 2 content ! 1 @ ''---'' @ [newline, newline]
             @ ddd_CREDIT_COMMENT @ lstrip (split ''---'' 2 content ! 2)
      else ddd_CREDIT_COMMENT @ content)"

text \<open>The pattern \<open>^name:\s*.*$\<close> of \<open>update_frontmatter_name\<close>, compiled with \<open>re.MULTILINE\<close>.\<close>

definition name_line :: regex where
  "name_line = [Bol] @ lits ''name:'' @ [Many 0 Space, Many 0 Dot, Eol]"

text \<open>
  \<open>update_frontmatter_name\<close> of \<open>sync_ddd.py\<close>. The replacement is the text
  \<open>name: \<close> followed by the new name, which holds no backslash at any call of the script.
\<close>

definition update_frontmatter_name :: "string \<Rightarrow> string \<Rightarrow> string" where
  "update_frontmatter_name content new_name =
     (if \<not> startswith content ''---'' then content
      else if length (split ''---'' 2 content) < 3 then content
      else ''---'' @ re_sub name_line (rlits (''name: '' @ new_name)) (split ''---'' 2 content ! 1)
             @ ''---'' @ split ''---'' 2 content ! 2)"

section \<open>Files, effects and errors\<close>

text \<open>
  A path is the list of its components; \<open>p / name\<close> appends a component and
  \<open>p.parent\<close> drops the last one.
\<close>

type_synonym path = "string list"

definition parent :: "path \<Rightarrow> path" where
  "parent p = butlast p"

definition endswith :: "string \<Rightarrow> string \<Rightarrow> bool" where
  "endswith s suf = suffix suf s"

text \<open>
  The upstream clone, which the scripts only read: the regular text files with their contents,
  in the order in which the directory scan lists them, and the directories that hold no file.
  A path that a script reads is a readable text file or is absent, and reading it does not
  fail. The clone sits in a fresh temporary directory, apart from the plugin tree that is
  written.
\<close>

record source =
  src_dirs :: "path set"
  src_files :: "(path \<times> string) list"

text \<open>
  \<open>d.exists()\<close> for a path that the script uses as a directory: it is listed as one, or a
  file lies below it.
\<close>

definition dir_exists :: "source \<Rightarrow> path \<Rightarrow> bool" where
  "dir_exists src d =
     (d \<in> src_dirs src \<or> list_ex (\<lambda>(p, content). strict_prefix d p) (src_files src))"

text \<open>
  \<open>p.exists()\<close> followed by \<open>p.read_text()\<close> for a path that the script reads as a file:
  \<open>None\<close> when no file is there, the whole content otherwise.
\<close>

definition read_file :: "source \<Rightarrow> path \<Rightarrow> string option" where
  "read_file src p = map_of (src_files src) p"

text \<open>
  \<open>d.rglob("*.md")\<close>: the files below \<open>d\<close>, at any depth, whose name ends in \<open>.md\<close>, each
  with what \<open>read_text\<close> returns for it.
\<close>

definition rglob_md :: "source \<Rightarrow> path \<Rightarrow> (path \<times> string) list" where
  "rglob_md src d =
     filter (\<lambda>(p, content). strict_prefix d p \<and> endswith (last p) ''.md'') (src_files src)"

text \<open>What the scripts print, one constructor for each format string that names a path.\<close>

datatype line =
    Text string
  | Would_update path
  | Updated path
  | Would_create path
  | Created path
  | Contract_file_not_found path
  | Module_source_protocol_not_found
  | Not_found_skipping path

definition str_path :: "path \<Rightarrow> string" where
  "str_path p = join ''/'' p"

fun render :: "line \<Rightarrow> string" where
  "render (Text s) = s"
| "render (Would_update p) = ''  [DRY-RUN] Would update: '' @ str_path p"
| "render (Updated p) = ''  Updated: '' @ str_path p"
| "render (Would_create p) = ''  [DRY-RUN] Would create: '' @ str_path p"
| "render (Created p) = ''  Created: '' @ str_path p"
| "render (Contract_file_not_found p) = ''  WARNING: Contract file not found: '' @ str_path p"
| "render Module_source_protocol_not_found = ''  WARNING: MODULE_SOURCE_PROTOCOL.md not found''"
| "render (Not_found_skipping p) = ''  WARNING: '' @ str_path p @ '' not found, skipping''"

text \<open>
  The effects of a run on the world outside the clone, in the order in which they happen:
  \<open>print\<close>, \<open>mkdir(parents=True, exist_ok=True)\<close> and \<open>write_text\<close>.
\<close>

datatype effect = Print line | Mkdir_parents path | Write_text path string

text \<open>
  The plugin tree and the standard output, and what each effect does to them. The scripts never
  read the plugin tree; \<open>mkdir\<close> with \<open>exist_ok\<close> and \<open>write_text\<close>, which overwrites, are taken
  to succeed.
\<close>

record world =
  files :: "path \<Rightarrow> string option"
  dirs :: "path set"
  out :: "line list"

fun apply_effect :: "world \<Rightarrow> effect \<Rightarrow> world" where
  "apply_effect w (Print l) = w\<lparr>out := out w @ [l]\<rparr>"
| "apply_effect w (Mkdir_parents d) = w\<lparr>dirs := dirs w \<union> set (prefixes d)\<rparr>"
| "apply_effect w (Write_text p content) = w\<lparr>files := (files w)(p \<mapsto> content)\<rparr>"

definition run_effects :: "effect list \<Rightarrow> world \<Rightarrow> world" where
  "run_effects es w = foldl apply_effect w es"

text \<open>The parts of a trace that the claims speak about.\<close>

fun written :: "effect list \<Rightarrow> path list" where
  "written [] = []"
| "written (Write_text p content # es) = p # written es"
| "written (e # es) = written es"

fun created_dirs :: "effect list \<Rightarrow> path list" where
  "created_dirs [] = []"
| "created_dirs (Mkdir_parents d # es) = d # created_dirs es"
| "created_dirs (e # es) = created_dirs es"

fun reported :: "effect list \<Rightarrow> path list" where
  "reported [] = []"
| "reported (Print (Would_update p) # es) = p # reported es"
| "reported (Print (Would_create p) # es) = p # reported es"
| "reported (e # es) = reported es"

fun is_warning :: "line \<Rightarrow> bool" where
  "is_warning (Contract_file_not_found p) = True"
| "is_warning Module_source_protocol_not_found = True"
| "is_warning (Not_found_skipping p) = True"
| "is_warning l = False"

fun warnings :: "effect list \<Rightarrow> line list" where
  "warnings [] = []"
| "warnings (Print l # es) = (if is_warning l then l # warnings es else warnings es)"
| "warnings (e # es) = warnings es"

text \<open>
  The exceptions that the scripts raise or let through: \<open>FileNotFoundError\<close> with its message
  and path, and the \<open>CalledProcessError\<close> of a failed \<open>git clone\<close>.
\<close>

datatype error = FileNotFoundError string path | CalledProcessError

text \<open>A call returns a value or raises, after the effects it has had so far.\<close>

type_synonym 'a outcome = "(error + 'a) \<times> effect list"

definition bind :: "'a outcome \<Rightarrow> ('a \<Rightarrow> 'b outcome) \<Rightarrow> 'b outcome" where
  "bind m f =
     (case m of
        (Inl e, es) \<Rightarrow> (Inl e, es)
      | (Inr x, es) \<Rightarrow> (case f x of (r, es') \<Rightarrow> (r, es @ es')))"

definition say :: "line \<Rightarrow> unit outcome" where
  "say l = (Inr (), [Print l])"

text \<open>The exit status of the process: an exception that leaves \<open>main\<close> ends it with status 1.\<close>

definition exit_status :: "unit outcome \<Rightarrow> nat" where
  "exit_status r = (case fst r of Inl e \<Rightarrow> 1 | Inr u \<Rightarrow> 0)"


section \<open>The assemblers of \<open>sync_amplifier_core.py\<close>\<close>

definition CONTRACT_FILES :: "string list" where
  "CONTRACT_FILES =
     [''TOOL_CONTRACT.md'', ''PROVIDER_CONTRACT.md'', ''HOOK_CONTRACT.md'',
      ''ORCHESTRATOR_CONTRACT.md'', ''CONTEXT_CONTRACT.md'']"

text \<open>
  \<open>clone_upstream\<close>, the same in both scripts but for the repository: what \<open>git clone\<close>
  leaves in the target directory, or nothing when it exits with an error and
  \<open>check=True\<close> raises.
\<close>

definition clone_upstream :: "string \<Rightarrow> source option \<Rightarrow> source outcome" where
  "clone_upstream repo upstream =
     (case upstream of
        None \<Rightarrow> (Inl CalledProcessError, [Print (Text (''Cloning '' @ repo @ ''...''))])
      | Some src \<Rightarrow> (Inr src, [Print (Text (''Cloning '' @ repo @ ''...''))]))"

definition sync_philosophy :: "path \<Rightarrow> source \<Rightarrow> path \<Rightarrow> bool \<Rightarrow> path outcome" where
  "sync_philosophy plugin_root src source_dir dry_run =
     (let source_path = source_dir @ [''docs'', ''DESIGN_PHILOSOPHY.md''];
          target_path = plugin_root @ [''skills'', ''amplifier-philosophy'', ''SKILL.md'']
      in case read_file src source_path of
           None \<Rightarrow> (Inl (FileNotFoundError ''Source file not found: '' source_path), [])
         | Some text \<Rightarrow>
             (let content = PHILOSOPHY_FRONTMATTER @ core_inject_credit (core_transform_references text)
              in if dry_run then (Inr target_path, [Print (Would_update target_path)])
                 else (Inr target_path,
                       [Mkdir_parents (parent target_path), Write_text target_path content,
                        Print (Updated target_path)])))"

text \<open>The loop of \<open>sync_module_development\<close> over \<open>CONTRACT_FILES\<close>.\<close>

fun contracts_loop ::
  "source \<Rightarrow> path \<Rightarrow> string list \<Rightarrow> string list \<Rightarrow> effect list \<Rightarrow> string list \<times> effect list" where
  "contracts_loop src contracts_dir [] sections es = (sections, es)"
| "contracts_loop src contracts_dir (contract_file # rest) sections es =
     (case read_file src (contracts_dir @ [contract_file]) of
        Some contract_content \<Rightarrow>
          contracts_loop src contracts_dir rest
            (sections @ [[newline] @ ''---'' @ [newline, newline]
                           @ core_transform_references contract_content]) es
      | None \<Rightarrow>
          contracts_loop src contracts_dir rest sections
            (es @ [Print (Contract_file_not_found (contracts_dir @ [contract_file]))]))"

definition sync_module_development :: "path \<Rightarrow> source \<Rightarrow> path \<Rightarrow> bool \<Rightarrow> path outcome" where
  "sync_module_development plugin_root src source_dir dry_run =
     (let contracts_dir = source_dir @ [''docs'', ''contracts''];
          target_path = plugin_root @ [''skills'', ''module-development'', ''SKILL.md'']
      in if \<not> dir_exists src contracts_dir
         then (Inl (FileNotFoundError ''Contracts directory not found: '' contracts_dir), [])
         else
           (case read_file src (contracts_dir @ [''README.md'']) of
              None \<Rightarrow> (Inl (FileNotFoundError ''README not found: '' (contracts_dir @ [''README.md''])), [])
            | Some readme_content \<Rightarrow>
                (let (sections, es) =
                       contracts_loop src contracts_dir CONTRACT_FILES
                         [core_transform_references readme_content] [];
                     (sections, es) =
                       (case read_file src (source_dir @ [''docs'', ''MODULE_SOURCE_PROTOCOL.md'']) of
                          Some module_source_content \<Rightarrow>
                            (sections @ [[newline] @ ''---'' @ [newline, newline]
                               @ ''# Appendix: Module Source Protocol'' @ [newline, newline]
                               @ core_transform_references module_source_content], es)
                        | None \<Rightarrow> (sections, es @ [Print Module_source_protocol_not_found]));
                     combined_content =
                       MODULE_DEV_FRONTMATTER @ core_inject_credit (join [newline] sections)
                 in if dry_run then (Inr target_path, es @ [Print (Would_update target_path)])
                    else (Inr target_path,
                          es @ [Mkdir_parents (parent target_path),
                                Write_text target_path combined_content,
                                Print (Updated target_path)]))))"

text \<open>
  \<open>main\<close> of \<open>sync_amplifier_core.py\<close>, with the directory that \<open>TemporaryDirectory\<close> hands
  out, the outcome of the clone and the \<open>--dry-run\<close> flag.
\<close>

definition core_main :: "path \<Rightarrow> path \<Rightarrow> source option \<Rightarrow> bool \<Rightarrow> unit outcome" where
  "core_main plugin_root tmp_dir upstream dry_run =
     bind (say (Text (replicate 60 CHR ''=''))) (\<lambda>_.
     bind (say (Text ''Amplifier Core Sync'')) (\<lambda>_.
     bind (say (Text (replicate 60 CHR ''=''))) (\<lambda>_.
     bind (clone_upstream ''https://github.com/microsoft/amplifier-core'' upstream) (\<lambda>src.
     bind (say (Text ([newline] @ ''[1/2] Syncing amplifier-philosophy...''))) (\<lambda>_.
     bind (sync_philosophy plugin_root src (tmp_dir @ [''amplifier-core'']) dry_run) (\<lambda>_.
     bind (say (Text ([newline] @ ''[2/2] Syncing module-development...''))) (\<lambda>_.
     bind (sync_module_development plugin_root src (tmp_dir @ [''amplifier-core'']) dry_run) (\<lambda>_.
     bind (say (Text ([newline] @ replicate 60 CHR ''=''))) (\<lambda>_.
     bind (say (Text (if dry_run then ''DRY-RUN complete. No files were modified.''
                      else ''Sync complete!''))) (\<lambda>_.
     say (Text (replicate 60 CHR ''=''))))))))))))"


section \<open>The assemblers of \<open>sync_ddd.py\<close>\<close>

text \<open>\<open>AGENT_TO_COMMAND\<close>: a dictionary, walked in the order in which it is written.\<close>

definition AGENT_TO_COMMAND :: "(string \<times> string) list" where
  "AGENT_TO_COMMAND =
     [(''planning-architect.md'', ''ddd-1-plan.md''),
      (''documentation-retroner.md'', ''ddd-2-docs.md''),
      (''code-planner.md'', ''ddd-3-code-plan.md''),
      (''implementation-verifier.md'', ''ddd-4-code.md''),
      (''finalization-specialist.md'', ''ddd-5-finish.md'')]"

text \<open>The content that \<open>convert_agents_to_commands\<close> writes for one agent file.\<close>

definition command_content :: "string \<Rightarrow> string \<Rightarrow> string" where
  "command_content text command_file =
     update_frontmatter_name (ddd_inject_credit (ddd_transform_references text))
       (replace ''.md'' [] command_file)"

text \<open>The loop of \<open>convert_agents_to_commands\<close> over the items of the mapping.\<close>

fun agents_loop ::
  "source \<Rightarrow> path \<Rightarrow> path \<Rightarrow> bool \<Rightarrow> (string \<times> string) list \<Rightarrow> path list \<Rightarrow> effect list
     \<Rightarrow> path list \<times> effect list" where
  "agents_loop src agents_dir commands_dir dry_run [] converted es = (converted, es)"
| "agents_loop src agents_dir commands_dir dry_run ((agent_file, command_file) # rest) converted es =
     (case read_file src (agents_dir @ [agent_file]) of
        None \<Rightarrow>
          agents_loop src agents_dir commands_dir dry_run rest converted
            (es @ [Print (Not_found_skipping (agents_dir @ [agent_file]))])
      | Some text \<Rightarrow>
          agents_loop src agents_dir commands_dir dry_run rest
            (converted @ [commands_dir @ [command_file]])
            (es @ (if dry_run then [Print (Would_create (commands_dir @ [command_file]))]
                   else [Mkdir_parents (parent (commands_dir @ [command_file])),
                         Write_text (commands_dir @ [command_file]) (command_content text command_file),
                         Print (Created (commands_dir @ [command_file]))])))"

definition convert_agents_to_commands ::
  "path \<Rightarrow> source \<Rightarrow> path \<Rightarrow> bool \<Rightarrow> (path list) outcome" where
  "convert_agents_to_commands plugin_root src source_dir dry_run =
     (let agents_dir = source_dir @ [''agents''];
          commands_dir = plugin_root @ [''commands'']
      in if \<not> dir_exists src agents_dir
         then (Inl (FileNotFoundError ''agents directory not found: '' agents_dir), [])
         else (let (converted, es) =
                     agents_loop src agents_dir commands_dir dry_run AGENT_TO_COMMAND [] []
               in (Inr converted, es)))"

text \<open>The loop of \<open>copy_context_to_skills\<close> over the files that \<open>rglob\<close> yields.\<close>

fun context_loop ::
  "path \<Rightarrow> path \<Rightarrow> bool \<Rightarrow> (path \<times> string) list \<Rightarrow> path list \<Rightarrow> effect list
     \<Rightarrow> path list \<times> effect list" where
  "context_loop context_dir references_dir dry_run [] copied es = (copied, es)"
| "context_loop context_dir references_dir dry_run ((md_file, text) # rest) copied es =
     (let relative_path = drop (length context_dir) md_file;
          target_path = references_dir @ relative_path;
          content = ddd_inject_credit (ddd_transform_references text)
      in context_loop context_dir references_dir dry_run rest
           (copied @ [target_path])
           (es @ (if dry_run then [Print (Would_create target_path)]
                  else [Mkdir_parents (parent target_path), Write_text target_path content,
                        Print (Created target_path)])))"

definition copy_context_to_skills ::
  "path \<Rightarrow> source \<Rightarrow> path \<Rightarrow> bool \<Rightarrow> (path list) outcome" where
  "copy_context_to_skills plugin_root src source_dir dry_run =
     (let context_dir = source_dir @ [''context''];
          references_dir = plugin_root @ [''skills'', ''ddd-guide'', ''references'']
      in if \<not> dir_exists src context_dir
         then (Inl (FileNotFoundError ''context directory not found: '' context_dir), [])
         else (let (copied, es) =
                     context_loop context_dir references_dir dry_run (rglob_md src context_dir) [] []
               in (Inr copied, es)))"

definition generate_skill_md :: "path \<Rightarrow> bool \<Rightarrow> path outcome" where
  "generate_skill_md plugin_root dry_run =
     (let skill_path = plugin_root @ [''skills'', ''ddd-guide'', ''SKILL.md'']
      in if dry_run then (Inr skill_path, [Print (Would_create skill_path)])
         else (Inr skill_path,
               [Mkdir_parents (parent skill_path), Write_text skill_path SKILL_MD_TEMPLATE,
                Print (Created skill_path)]))"

text \<open>\<open>main\<close> of \<open>sync_ddd.py\<close>.\<close>

definition ddd_main :: "path \<Rightarrow> path \<Rightarrow> source option \<Rightarrow> bool \<Rightarrow> unit outcome" where
  "ddd_main plugin_root tmp_dir upstream dry_run =
     bind (say (Text (replicate 60 CHR ''=''))) (\<lambda>_.
     bind (say (Text ''DDD Collection Sync'')) (\<lambda>_.
     bind (say (Text (replicate 60 CHR ''=''))) (\<lambda>_.
     bind (clone_upstream ''https://github.com/robotdad/amplifier-collection-ddd'' upstream) (\<lambda>src.
     bind (say (Text ([newline] @ ''[1/3] Converting agents to commands...''))) (\<lambda>_.
     bind (convert_agents_to_commands plugin_root src (tmp_dir @ [''ddd'']) dry_run) (\<lambda>_.
     bind (say (Text ([newline] @ ''[2/3] Copying context to skills...''))) (\<lambda>_.
     bind (copy_context_to_skills plugin_root src (tmp_dir @ [''ddd'']) dry_run) (\<lambda>_.
     bind (say (Text ([newline] @ ''[3/3] Generating SKILL.md...''))) (\<lambda>_.
     bind (generate_skill_md plugin_root dry_run) (\<lambda>_.
     bind (say (Text ([newline] @ replicate 60 CHR ''=''))) (\<lambda>_.
     bind (say (Text (if dry_run then ''DRY-RUN complete. No files were modified.''
                      else ''Sync complete!''))) (\<lambda>_.
     say (Text (replicate 60 CHR ''=''))))))))))))))"

section \<open>Notions of the specification\<close>

text \<open>The rule list with the rules at two positions exchanged.\<close>

definition swap_rules :: "nat \<Rightarrow> nat \<Rightarrow> rule list \<Rightarrow> rule list" where
  "swap_rules i j rules =
     (if i < length rules \<and> j < length rules then rules[i := rules ! j, j := rules ! i] else rules)"


text \<open>
  The loops without their accumulators: what each item of the list contributes, in order.
\<close>

definition contract_section :: "string \<Rightarrow> string" where
  "contract_section contract_content =
     [newline] @ ''---'' @ [newline, newline] @ core_transform_references contract_content"

definition appendix_section :: "string \<Rightarrow> string" where
  "appendix_section module_source_content =
     [newline] @ ''---'' @ [newline, newline] @ ''# Appendix: Module Source Protocol''
       @ [newline, newline] @ core_transform_references module_source_content"

definition contract_sections :: "source \<Rightarrow> path \<Rightarrow> string list \<Rightarrow> string list" where
  "contract_sections src contracts_dir names =
     concat (map (\<lambda>n. case read_file src (contracts_dir @ [n]) of
                          None \<Rightarrow> []
                        | Some t \<Rightarrow> [contract_section t]) names)"

definition contract_warnings :: "source \<Rightarrow> path \<Rightarrow> string list \<Rightarrow> line list" where
  "contract_warnings src contracts_dir names =
     concat (map (\<lambda>n. case read_file src (contracts_dir @ [n]) of
                          None \<Rightarrow> [Contract_file_not_found (contracts_dir @ [n])]
                        | Some t \<Rightarrow> []) names)"

definition present_commands :: "source \<Rightarrow> path \<Rightarrow> path \<Rightarrow> (string \<times> string) list \<Rightarrow> path list" where
  "present_commands src agents_dir commands_dir entries =
     concat (map (\<lambda>(a, c). case read_file src (agents_dir @ [a]) of
                               None \<Rightarrow> []
                             | Some t \<Rightarrow> [commands_dir @ [c]]) entries)"

definition absent_agents :: "source \<Rightarrow> path \<Rightarrow> (string \<times> string) list \<Rightarrow> line list" where
  "absent_agents src agents_dir entries =
     concat (map (\<lambda>(a, c). case read_file src (agents_dir @ [a]) of
                               None \<Rightarrow> [Not_found_skipping (agents_dir @ [a])]
                             | Some t \<Rightarrow> []) entries)"

definition agent_effects :: "source \<Rightarrow> path \<Rightarrow> path \<Rightarrow> bool \<Rightarrow> string \<times> string \<Rightarrow> effect list" where
  "agent_effects src agents_dir commands_dir dry_run entry =
     (case read_file src (agents_dir @ [fst entry]) of
        None \<Rightarrow> [Print (Not_found_skipping (agents_dir @ [fst entry]))]
      | Some t \<Rightarrow>
          if dry_run then [Print (Would_create (commands_dir @ [snd entry]))]
          else [Mkdir_parents (parent (commands_dir @ [snd entry])),
                Write_text (commands_dir @ [snd entry]) (command_content t (snd entry)),
                Print (Created (commands_dir @ [snd entry]))])"

definition mirror_target :: "path \<Rightarrow> path \<Rightarrow> path \<Rightarrow> path" where
  "mirror_target context_dir references_dir md_file =
     references_dir @ drop (length context_dir) md_file"

definition mirror_effects :: "path \<Rightarrow> path \<Rightarrow> bool \<Rightarrow> path \<times> string \<Rightarrow> effect list" where
  "mirror_effects context_dir references_dir dry_run entry =
     (if dry_run then [Print (Would_create (mirror_target context_dir references_dir (fst entry)))]
      else [Mkdir_parents (parent (mirror_target context_dir references_dir (fst entry))),
            Write_text (mirror_target context_dir references_dir (fst entry))
              (ddd_inject_credit (ddd_transform_references (snd entry))),
            Print (Created (mirror_target context_dir references_dir (fst entry)))])"

text \<open>
  What the claim about dry runs asks of an assembler \<open>f\<close>, given as a function of the flag: the
  dry run writes no file and creates no directory, so that the plugin tree is the same after it;
  it returns what the applying run returns; and the paths it reports are the paths the applying
  run writes, which are the paths it returns.
\<close>

definition dry_run_faithful :: "(bool \<Rightarrow> 'a outcome) \<Rightarrow> ('a \<Rightarrow> path list) \<Rightarrow> bool" where
  "dry_run_faithful f paths =
     (written (snd (f True)) = [] \<and> created_dirs (snd (f True)) = []
      \<and> (\<forall>w. files (run_effects (snd (f True)) w) = files w
             \<and> dirs (run_effects (snd (f True)) w) = dirs w)
      \<and> fst (f True) = fst (f False)
      \<and> reported (snd (f True)) = written (snd (f False))
      \<and> reported (snd (f True)) = (case fst (f True) of Inl e \<Rightarrow> [] | Inr x \<Rightarrow> paths x))"

text \<open>Small clones for the examples: an empty one, and one for each script.\<close>

definition empty_clone :: source where
  "empty_clone = \<lparr>src_dirs = {}, src_files = []\<rparr>"

definition core_clone :: source where
  "core_clone =
     \<lparr>src_dirs = {},
      src_files =
        [([''tmp'', ''amplifier-core'', ''docs'', ''DESIGN_PHILOSOPHY.md''], ''# Philosophy''),
         ([''tmp'', ''amplifier-core'', ''docs'', ''contracts'', ''README.md''],
          ''See [tools](TOOL_CONTRACT.md) and [design](../DESIGN.md)''),
         ([''tmp'', ''amplifier-core'', ''docs'', ''contracts'', ''HOOK_CONTRACT.md''], ''# Hooks'')]\<rparr>"

definition ddd_clone :: source where
  "ddd_clone =
     \<lparr>src_dirs = {[''tmp'', ''ddd'', ''agents'']},
      src_files =
        [([''tmp'', ''ddd'', ''agents'', ''planning-architect.md''],
          ''---'' @ [newline] @ ''name: planning-architect'' @ [newline] @ ''---'' @ [newline]
            @ ''Read @ddd:context/phases.md''),
         ([''tmp'', ''ddd'', ''context'', ''phases'', ''plan.md''], ''See @ddd:core''),
         ([''tmp'', ''ddd'', ''context'', ''notes.txt''], ''skipped'')]\<rparr>"

text \<open>
  What \<open>sync_module_development\<close> assembles and what it warns about, in the words of the
  specification: the overview, then the fragments that are present, in the fixed order, each
  behind its separator; one warning for each fragment that is absent.
\<close>

definition module_development_content :: "source \<Rightarrow> path \<Rightarrow> string \<Rightarrow> string" where
  "module_development_content src source_dir readme_content =
     MODULE_DEV_FRONTMATTER @ core_CREDIT_COMMENT
       @ join [newline]
           ([core_transform_references readme_content]
            @ contract_sections src (source_dir @ [''docs'', ''contracts'']) CONTRACT_FILES
            @ (case read_file src (source_dir @ [''docs'', ''MODULE_SOURCE_PROTOCOL.md'']) of
                 None \<Rightarrow> []
               | Some t \<Rightarrow> [appendix_section t]))"

definition module_development_warnings :: "source \<Rightarrow> path \<Rightarrow> line list" where
  "module_development_warnings src source_dir =
     contract_warnings src (source_dir @ [''docs'', ''contracts'']) CONTRACT_FILES
       @ (case read_file src (source_dir @ [''docs'', ''MODULE_SOURCE_PROTOCOL.md'']) of
            None \<Rightarrow> [Module_source_protocol_not_found]
          | Some t \<Rightarrow> [])"

text \<open>
  What the substitution of \<open>update_frontmatter_name\<close> does, read off the pattern: at the start
  of a line, the text \<open>name:\<close>, the white space behind it and the rest of the line reached
  then are replaced by \<open>name: \<close> and the new name.
\<close>

function rewrite_names :: "string \<Rightarrow> bool \<Rightarrow> string \<Rightarrow> string" where
  "rewrite_names new_name bol [] = []"
| "rewrite_names new_name bol (c # cs) =
     (if bol \<and> prefix ''name:'' (c # cs)
      then ''name: '' @ new_name
             @ rewrite_names new_name False
                 (dropWhile (\<lambda>x. x \<noteq> newline) (dropWhile isspace (drop 5 (c # cs))))
      else c # rewrite_names new_name (c = newline) cs)"
  by pat_completeness auto
termination
proof (relation "measure (\<lambda>(n, b, s). length s)")
  fix new_name :: string and bol :: bool and c :: char and cs :: string
  have "length (dropWhile (\<lambda>x. x \<noteq> newline) (dropWhile isspace (drop 5 (c # cs))))
      \<le> length (dropWhile isspace (drop 5 (c # cs)))" by (rule length_dropWhile_le)
  also have "\<dots> \<le> length (drop 5 (c # cs))" by (rule length_dropWhile_le)
  also have "\<dots> < length (c # cs)" by simp
  finally show "((new_name, False,
        dropWhile (\<lambda>x. x \<noteq> newline) (dropWhile isspace (drop 5 (c # cs)))), new_name, bol, c # cs)
      \<in> measure (\<lambda>(n, b, s). length s)" by simp
qed simp_all


section \<open>Facts about the string operations\<close>

lemma find_sep_decomp: "find_sep sep s = Some (a, b) \<Longrightarrow> s = a @ sep @ b"
proof (induction s arbitrary: a)
  case Nil
  then show ?case by (simp split: if_splits)
next
  case (Cons c cs)
  show ?case
  proof (cases "prefix sep (c # cs)")
    case True
    with Cons.prems have "a = []" "b = drop (length sep) (c # cs)" by simp_all
    moreover from True obtain r where "c # cs = sep @ r" by (auto simp: prefix_def)
    ultimately show ?thesis by simp
  next
    case False
    with Cons.prems obtain a' where "find_sep sep cs = Some (a', b)" "a = c # a'"
      by (auto split: option.splits)
    with Cons.IH show ?thesis by simp
  qed
qed

lemma find_sep_None: "(find_sep sep s = None) = (\<not> sublist sep s)"
proof (induction s)
  case Nil
  then show ?case by simp
next
  case (Cons c cs)
  then show ?case
    by (auto simp: sublist_Cons_right split: option.splits)
qed

lemma prefix_shorter:
  assumes "prefix sep (xs @ ys)" "length sep \<le> length xs"
  shows "prefix sep xs"
proof -
  have "prefix xs (xs @ ys)" by simp
  with assms show ?thesis
    using prefix_length_prefix by blast
qed

lemma find_sep_first:
  assumes "sep \<noteq> []"
  shows "find_sep sep s = Some (a, b) \<Longrightarrow> \<not> sublist sep (a @ butlast sep)"
proof (induction s arbitrary: a)
  case Nil
  with assms show ?case by simp
next
  case (Cons c cs)
  show ?case
  proof (cases "prefix sep (c # cs)")
    case True
    with Cons.prems have "a = []" by simp
    moreover have "\<not> sublist sep (butlast sep)"
    proof
      assume "sublist sep (butlast sep)"
      then have "length sep \<le> length (butlast sep)" by (rule sublist_length_le)
      with assms show False by (simp add: length_greater_0_conv [symmetric] del: length_greater_0_conv)
    qed
    ultimately show ?thesis by simp
  next
    case False
    with Cons.prems obtain a' where a': "find_sep sep cs = Some (a', b)" "a = c # a'"
      by (auto split: option.splits)
    from a'(1) have cs: "cs = a' @ sep @ b" by (rule find_sep_decomp)
    have "\<not> prefix sep (c # a' @ butlast sep)"
    proof
      assume "prefix sep (c # a' @ butlast sep)"
      then have "prefix sep ((c # a' @ butlast sep) @ (last sep # b))"
        using prefix_prefix by blast
      moreover have e: "c # a' @ sep @ b = (c # a' @ butlast sep) @ (last sep # b)"
        using assms by simp
      ultimately have "prefix sep (c # a' @ sep @ b)" by (simp only: e)
      with cs False show False by simp
    qed
    moreover from Cons.IH a'(1) have "\<not> sublist sep (a' @ butlast sep)" .
    ultimately show ?thesis using a'(2) by (simp add: sublist_Cons_right)
  qed
qed

lemma find_sep_at:
  assumes "sep \<noteq> []"
  shows "\<not> sublist sep (a @ butlast sep) \<Longrightarrow> find_sep sep (a @ sep @ b) = Some (a, b)"
proof (induction a)
  case Nil
  from assms obtain c cs where "sep = c # cs" by (cases sep) auto
  then show ?case by simp
next
  case (Cons c a)
  from Cons.prems have np: "\<not> prefix sep (c # a @ butlast sep)" and ns: "\<not> sublist sep (a @ butlast sep)"
    by (simp_all add: sublist_Cons_right)
  have "\<not> prefix sep (c # a @ sep @ b)"
  proof
    assume p: "prefix sep (c # a @ sep @ b)"
    have e: "c # a @ sep @ b = (c # a @ butlast sep) @ [last sep] @ b" using assms by simp
    from p have "prefix sep ((c # a @ butlast sep) @ [last sep] @ b)" by (simp only: e)
    moreover have "length sep \<le> length (c # a @ butlast sep)" by simp
    ultimately have "prefix sep (c # a @ butlast sep)" by (rule prefix_shorter)
    with np show False ..
  qed
  with Cons.IH [OF ns] show ?case by simp
qed

lemma split_delimited:
  assumes "startswith content ''---''"
  shows "split ''---'' 2 content =
     (case find_sep ''---'' (drop 3 content) of
        None \<Rightarrow> [[], drop 3 content]
      | Some (a, b) \<Rightarrow> [[], a, b])"
proof -
  from assms obtain r where r: "content = ''---'' @ r" by (auto simp: startswith_def prefix_def)
  have "find_sep ''---'' content = Some ([], r)" unfolding r by simp
  then show ?thesis unfolding r
    by (simp add: numeral_2_eq_2 split: option.splits)
qed

section \<open>Facts about traces of effects\<close>

lemma written_append: "written (xs @ ys) = written xs @ written ys"
  by (induction xs rule: written.induct) simp_all

lemma created_dirs_append: "created_dirs (xs @ ys) = created_dirs xs @ created_dirs ys"
  by (induction xs rule: created_dirs.induct) simp_all

lemma reported_append: "reported (xs @ ys) = reported xs @ reported ys"
  by (induction xs rule: reported.induct) simp_all

lemma warnings_append: "warnings (xs @ ys) = warnings xs @ warnings ys"
  by (induction xs rule: warnings.induct) simp_all

lemma written_concat: "written (concat xss) = concat (map written xss)"
  by (induction xss) (simp_all add: written_append)

lemma created_dirs_concat: "created_dirs (concat xss) = concat (map created_dirs xss)"
  by (induction xss) (simp_all add: created_dirs_append)

lemma reported_concat: "reported (concat xss) = concat (map reported xss)"
  by (induction xss) (simp_all add: reported_append)

lemma warnings_concat: "warnings (concat xss) = concat (map warnings xss)"
  by (induction xss) (simp_all add: warnings_append)

lemma run_effects_Nil: "run_effects [] w = w"
  by (simp add: run_effects_def)

lemma run_effects_Cons: "run_effects (e # es) w = run_effects es (apply_effect w e)"
  by (simp add: run_effects_def)

lemma run_effects_append: "run_effects (xs @ ys) w = run_effects ys (run_effects xs w)"
  by (simp add: run_effects_def)

lemma files_untouched:
  "p \<notin> set (written es) \<Longrightarrow> files (run_effects es w) p = files w p"
proof (induction es arbitrary: w)
  case Nil
  then show ?case by (simp add: run_effects_Nil)
next
  case (Cons e es)
  then show ?case by (cases e) (simp_all add: run_effects_Cons)
qed

lemma files_unchanged:
  "written es = [] \<Longrightarrow> files (run_effects es w) = files w"
  by (rule ext) (simp add: files_untouched)

lemma dirs_unchanged:
  "created_dirs es = [] \<Longrightarrow> dirs (run_effects es w) = dirs w"
proof (induction es arbitrary: w)
  case Nil
  then show ?case by (simp add: run_effects_Nil)
next
  case (Cons e es)
  then show ?case by (cases e) (simp_all add: run_effects_Cons)
qed

lemma files_written_last:
  "p \<notin> set (written es) \<Longrightarrow>
     files (run_effects (Write_text p content # es) w) p = Some content"
  by (simp add: run_effects_Cons files_untouched)

section \<open>Facts about the loops\<close>

lemma contracts_loop_eq:
  "contracts_loop src contracts_dir names sections es =
     (sections @ contract_sections src contracts_dir names,
      es @ map Print (contract_warnings src contracts_dir names))"
  by (induction names arbitrary: sections es)
     (simp_all add: contract_sections_def contract_warnings_def contract_section_def
        split: option.splits)

lemma agents_loop_eq:
  "agents_loop src agents_dir commands_dir dry_run entries converted es =
     (converted @ present_commands src agents_dir commands_dir entries,
      es @ concat (map (agent_effects src agents_dir commands_dir dry_run) entries))"
  by (induction entries arbitrary: converted es)
     (auto simp: present_commands_def agent_effects_def split: option.splits)

lemma context_loop_eq:
  "context_loop context_dir references_dir dry_run listing copied es =
     (copied @ map (\<lambda>entry. mirror_target context_dir references_dir (fst entry)) listing,
      es @ concat (map (mirror_effects context_dir references_dir dry_run) listing))"
  by (induction listing arbitrary: copied es)
     (auto simp: mirror_target_def mirror_effects_def Let_def)


section \<open>Facts about the credit banner and the frontmatter\<close>

lemma frontmatter_decomp:
  assumes "startswith content ''---''" and "sublist ''---'' (drop 3 content)"
  shows "\<exists>fm body. find_sep ''---'' (drop 3 content) = Some (fm, body)
           \<and> content = ''---'' @ fm @ ''---'' @ body \<and> \<not> sublist ''---'' (fm @ ''--'')"
proof -
  from assms(1) obtain r where r: "content = ''---'' @ r"
    by (auto simp: startswith_def prefix_def)
  from assms(2) have "find_sep ''---'' (drop 3 content) \<noteq> None"
    by (simp add: find_sep_None)
  then obtain fm body where f: "find_sep ''---'' (drop 3 content) = Some (fm, body)"
    by auto
  then have "drop 3 content = fm @ ''---'' @ body" by (rule find_sep_decomp)
  with r have "content = ''---'' @ fm @ ''---'' @ body" by simp
  moreover have "\<not> sublist ''---'' (fm @ butlast ''---'')"
    by (rule find_sep_first [OF _ f]) simp
  ultimately show ?thesis using f by simp
qed

lemma lstrip_decomp:
  "\<exists>ws. s = ws @ lstrip s \<and> (\<forall>c\<in>set ws. isspace c)
     \<and> (case lstrip s of [] \<Rightarrow> True | c # _ \<Rightarrow> \<not> isspace c)"
proof -
  have "s = takeWhile isspace s @ lstrip s" by (simp add: lstrip_def)
  moreover have "\<forall>c\<in>set (takeWhile isspace s). isspace c"
    by (auto dest: set_takeWhileD)
  moreover have "case lstrip s of [] \<Rightarrow> True | c # _ \<Rightarrow> \<not> isspace c"
  proof (cases "dropWhile isspace s")
    case Nil
    then show ?thesis by (simp add: lstrip_def del: dropWhile_eq_Nil_conv)
  next
    case (Cons c r)
    then have "dropWhile isspace s \<noteq> []" by simp
    then have "\<not> isspace (hd (dropWhile isspace s))" by (rule hd_dropWhile)
    with Cons show ?thesis by (simp add: lstrip_def)
  qed
  ultimately show ?thesis by blast
qed

lemma ddd_inject_credit_frontmatter:
  assumes "startswith content ''---''"
    and "find_sep ''---'' (drop 3 content) = Some (fm, body)"
  shows "ddd_inject_credit content =
           ''---'' @ fm @ ''---'' @ [newline, newline] @ ddd_CREDIT_COMMENT @ lstrip body"
  using assms by (simp add: ddd_inject_credit_def split_delimited)

lemma ddd_inject_credit_plain:
  assumes "\<not> (startswith content ''---'' \<and> sublist ''---'' (drop 3 content))"
  shows "ddd_inject_credit content = ddd_CREDIT_COMMENT @ content"
proof (cases "startswith content ''---''")
  case True
  with assms have "find_sep ''---'' (drop 3 content) = None" by (simp add: find_sep_None)
  with True show ?thesis by (simp add: ddd_inject_credit_def split_delimited)
next
  case False
  then show ?thesis by (simp add: ddd_inject_credit_def)
qed

lemma update_frontmatter_name_frontmatter:
  assumes "startswith content ''---''"
    and "find_sep ''---'' (drop 3 content) = Some (fm, body)"
  shows "update_frontmatter_name content new_name =
           ''---'' @ re_sub name_line (rlits (''name: '' @ new_name)) fm @ ''---'' @ body"
  using assms by (simp add: update_frontmatter_name_def split_delimited)

lemma update_frontmatter_name_plain:
  assumes "\<not> (startswith content ''---'' \<and> sublist ''---'' (drop 3 content))"
  shows "update_frontmatter_name content new_name = content"
proof (cases "startswith content ''---''")
  case True
  with assms have "find_sep ''---'' (drop 3 content) = None" by (simp add: find_sep_None)
  with True show ?thesis by (simp add: update_frontmatter_name_def split_delimited)
next
  case False
  then show ?thesis by (simp add: update_frontmatter_name_def)
qed

lemma transform_loop_foldl:
  "transform_loop rules content = foldl (\<lambda>result (pattern, replacement). re_sub pattern replacement result) content rules"
  by (induction rules content rule: transform_loop.induct) simp_all


section \<open>Facts about the assemblers\<close>

lemma dry_run_faithfulI:
  assumes "written (snd (f True)) = []" "created_dirs (snd (f True)) = []"
    "fst (f True) = fst (f False)"
    "reported (snd (f True)) = written (snd (f False))"
    "reported (snd (f True)) = (case fst (f True) of Inl e \<Rightarrow> [] | Inr x \<Rightarrow> paths x)"
  shows "dry_run_faithful f paths"
  unfolding dry_run_faithful_def using assms by (simp add: files_unchanged dirs_unchanged)

lemma printed_traces:
  "written (map Print ls) = []" "created_dirs (map Print ls) = []"
  by (induction ls) simp_all

lemma contract_warnings_reported:
  "reported (map Print (contract_warnings src d names)) = []"
  by (induction names) (simp_all add: contract_warnings_def reported_append split: option.splits)

lemma agent_effects_dry:
  "written (concat (map (agent_effects src ad cd True) entries)) = []"
  "created_dirs (concat (map (agent_effects src ad cd True) entries)) = []"
  "reported (concat (map (agent_effects src ad cd True) entries)) = present_commands src ad cd entries"
  by (induction entries)
     (auto simp: agent_effects_def present_commands_def written_append created_dirs_append
        reported_append split: option.splits)

lemma agent_effects_apply:
  "written (concat (map (agent_effects src ad cd False) entries)) = present_commands src ad cd entries"
  by (induction entries)
     (auto simp: agent_effects_def present_commands_def written_append split: option.splits)

lemma mirror_effects_dry:
  "written (concat (map (mirror_effects c r True) listing)) = []"
  "created_dirs (concat (map (mirror_effects c r True) listing)) = []"
  "reported (concat (map (mirror_effects c r True) listing))
     = map (\<lambda>entry. mirror_target c r (fst entry)) listing"
  by (induction listing)
     (auto simp: mirror_effects_def written_append created_dirs_append reported_append)

lemma mirror_effects_apply:
  "written (concat (map (mirror_effects c r False) listing))
     = map (\<lambda>entry. mirror_target c r (fst entry)) listing"
  by (induction listing) (auto simp: mirror_effects_def written_append)

lemma sync_philosophy_dry: "dry_run_faithful (sync_philosophy root src sd) (\<lambda>p. [p])"
  by (rule dry_run_faithfulI) (simp_all add: sync_philosophy_def Let_def split: option.splits)

lemma sync_module_development_dry: "dry_run_faithful (sync_module_development root src sd) (\<lambda>p. [p])"
  by (rule dry_run_faithfulI)
     (simp_all add: sync_module_development_def Let_def contracts_loop_eq written_append
        created_dirs_append reported_append printed_traces contract_warnings_reported
        split: option.splits)

lemma convert_agents_dry: "dry_run_faithful (convert_agents_to_commands root src sd) (\<lambda>ps. ps)"
  by (rule dry_run_faithfulI)
     (simp_all add: convert_agents_to_commands_def Let_def agents_loop_eq agent_effects_dry
        agent_effects_apply)

lemma copy_context_dry: "dry_run_faithful (copy_context_to_skills root src sd) (\<lambda>ps. ps)"
  by (rule dry_run_faithfulI)
     (simp_all add: copy_context_to_skills_def Let_def context_loop_eq mirror_effects_dry
        mirror_effects_apply)

lemma generate_skill_md_dry: "dry_run_faithful (generate_skill_md root) (\<lambda>p. [p])"
  by (rule dry_run_faithfulI) (simp_all add: generate_skill_md_def Let_def)

lemma fst_bind_say: "fst (bind (say l) f) = fst (f ())"
  by (simp add: bind_def say_def split: prod.splits)

lemma snd_bind_say: "snd (bind (say l) f) = Print l # snd (f ())"
  by (simp add: bind_def say_def split: prod.splits)

lemma fst_bind_clone: "fst (bind (clone_upstream repo (Some src)) f) = fst (f src)"
  by (simp add: bind_def clone_upstream_def split: prod.splits)

lemma snd_bind_clone:
  "snd (bind (clone_upstream repo (Some src)) f) = Print (Text (''Cloning '' @ repo @ ''...'')) # snd (f src)"
  by (simp add: bind_def clone_upstream_def split: prod.splits)

lemma bind_raise: "fst m = Inl e \<Longrightarrow> bind m f = (Inl e, snd m)"
  by (cases m) (simp add: bind_def)

lemma fst_bind_return: "fst m = Inr x \<Longrightarrow> fst (bind m f) = fst (f x)"
  by (cases m) (simp add: bind_def split: prod.splits)

lemma snd_bind_return: "fst m = Inr x \<Longrightarrow> snd (bind m f) = snd m @ snd (f x)"
  by (cases m) (simp add: bind_def split: prod.splits)

lemma sync_philosophy_missing:
  "read_file src (sd @ [''docs'', ''DESIGN_PHILOSOPHY.md'']) = None \<Longrightarrow>
     sync_philosophy root src sd dry_run =
       (Inl (FileNotFoundError ''Source file not found: '' (sd @ [''docs'', ''DESIGN_PHILOSOPHY.md''])), [])"
  by (simp add: sync_philosophy_def)

lemma sync_philosophy_cases:
  "(\<exists>e. sync_philosophy root src sd dry_run = (Inl e, []))
   \<or> (\<exists>es. sync_philosophy root src sd dry_run =
              (Inr (root @ [''skills'', ''amplifier-philosophy'', ''SKILL.md'']), es)
           \<and> set (written es) \<subseteq> {root @ [''skills'', ''amplifier-philosophy'', ''SKILL.md'']})"
  by (simp add: sync_philosophy_def Let_def split: option.splits)

lemma sync_module_development_missing:
  "\<not> dir_exists src (sd @ [''docs'', ''contracts''])
     \<or> read_file src (sd @ [''docs'', ''contracts'', ''README.md'']) = None \<Longrightarrow>
   \<exists>e. sync_module_development root src sd dry_run = (Inl e, [])"
  by (auto simp: sync_module_development_def Let_def)

lemma core_main_philosophy_missing:
  assumes "read_file src (tmp @ [''amplifier-core'', ''docs'', ''DESIGN_PHILOSOPHY.md'']) = None"
  shows "exit_status (core_main root tmp (Some src) dry_run) = 1"
    and "written (snd (core_main root tmp (Some src) dry_run)) = []"
proof -
  have m: "sync_philosophy root src (tmp @ [''amplifier-core'']) dry_run =
       (Inl (FileNotFoundError ''Source file not found: ''
              ((tmp @ [''amplifier-core'']) @ [''docs'', ''DESIGN_PHILOSOPHY.md''])), [])"
    by (rule sync_philosophy_missing) (simp add: assms)
  show "exit_status (core_main root tmp (Some src) dry_run) = 1"
    by (simp add: core_main_def exit_status_def fst_bind_say fst_bind_clone m bind_raise)
  show "written (snd (core_main root tmp (Some src) dry_run)) = []"
    by (simp add: core_main_def snd_bind_say snd_bind_clone m bind_raise)
qed

lemma core_main_contracts_missing:
  assumes "\<not> dir_exists src (tmp @ [''amplifier-core'', ''docs'', ''contracts''])
     \<or> read_file src (tmp @ [''amplifier-core'', ''docs'', ''contracts'', ''README.md'']) = None"
  shows "exit_status (core_main root tmp (Some src) dry_run) = 1"
    and "root @ [''skills'', ''module-development'', ''SKILL.md'']
           \<notin> set (written (snd (core_main root tmp (Some src) dry_run)))"
proof -
  from assms have "\<exists>e. sync_module_development root src (tmp @ [''amplifier-core'']) dry_run = (Inl e, [])"
    by (intro sync_module_development_missing) simp
  then obtain e where m: "sync_module_development root src (tmp @ [''amplifier-core'']) dry_run = (Inl e, [])"
    by blast
  from sync_philosophy_cases [of root src "tmp @ [''amplifier-core'']" dry_run]
  consider (raise) e' where "sync_philosophy root src (tmp @ [''amplifier-core'']) dry_run = (Inl e', [])"
    | (return) es where "sync_philosophy root src (tmp @ [''amplifier-core'']) dry_run =
              (Inr (root @ [''skills'', ''amplifier-philosophy'', ''SKILL.md'']), es)"
        "set (written es) \<subseteq> {root @ [''skills'', ''amplifier-philosophy'', ''SKILL.md'']}"
    by blast
  then have "exit_status (core_main root tmp (Some src) dry_run) = 1
    \<and> root @ [''skills'', ''module-development'', ''SKILL.md'']
           \<notin> set (written (snd (core_main root tmp (Some src) dry_run)))"
  proof cases
    case raise
    then show ?thesis
      by (simp add: core_main_def exit_status_def fst_bind_say snd_bind_say fst_bind_clone
          snd_bind_clone bind_raise)
  next
    case return
    then show ?thesis
      by (auto simp: core_main_def exit_status_def fst_bind_say snd_bind_say fst_bind_clone
          snd_bind_clone fst_bind_return snd_bind_return m bind_raise written_append)
  qed
  then show "exit_status (core_main root tmp (Some src) dry_run) = 1"
    and "root @ [''skills'', ''module-development'', ''SKILL.md'']
           \<notin> set (written (snd (core_main root tmp (Some src) dry_run)))"
    by simp_all
qed

lemma warnings_map_Print_contract:
  "warnings (map Print (contract_warnings src d names)) = contract_warnings src d names"
  by (induction names) (simp_all add: contract_warnings_def warnings_append split: option.splits)

lemma file_implies_dir:
  assumes "read_file src (d @ [n]) = Some t"
  shows "dir_exists src d"
proof -
  from assms have "(d @ [n], t) \<in> set (src_files src)"
    by (simp add: read_file_def map_of_SomeD)
  moreover have "strict_prefix d (d @ [n])" by (simp add: strict_prefix_def)
  ultimately show ?thesis
    by (auto simp: dir_exists_def list_ex_iff)
qed

lemma sync_module_development_eq:
  assumes "read_file src (sd @ [''docs'', ''contracts'', ''README.md'']) = Some readme"
  shows "sync_module_development root src sd dry_run =
     (Inr (root @ [''skills'', ''module-development'', ''SKILL.md'']),
      map Print (module_development_warnings src sd)
      @ (if dry_run then [Print (Would_update (root @ [''skills'', ''module-development'', ''SKILL.md'']))]
         else [Mkdir_parents (root @ [''skills'', ''module-development'']),
               Write_text (root @ [''skills'', ''module-development'', ''SKILL.md''])
                 (module_development_content src sd readme),
               Print (Updated (root @ [''skills'', ''module-development'', ''SKILL.md'']))]))"
proof -
  from assms have "read_file src ((sd @ [''docs'', ''contracts'']) @ [''README.md'']) = Some readme"
    by simp
  then have d: "dir_exists src (sd @ [''docs'', ''contracts''])" by (rule file_implies_dir)
  have p: "parent (root @ [''skills'', ''module-development'', ''SKILL.md''])
      = root @ [''skills'', ''module-development'']"
    by (simp add: parent_def butlast_append)
  show ?thesis
    using assms d
    by (simp add: sync_module_development_def Let_def contracts_loop_eq p
        module_development_warnings_def module_development_content_def core_inject_credit_def
        appendix_section_def
        split: option.splits)
qed


lemma count_list_distinct:
  "distinct xs \<Longrightarrow> x \<in> set xs \<Longrightarrow> count_list xs x = 1"
  by (induction xs) (auto simp: count_list_0_iff)

lemma same_snd_same_fst:
  assumes "distinct (map snd xs)" "(a, c) \<in> set xs" "(a', c) \<in> set xs"
  shows "a = a'"
proof -
  from assms(1) have "inj_on snd (set xs)" by (simp add: distinct_map)
  from inj_onD [OF this _ assms(2,3)] show ?thesis by simp
qed

lemma present_commands_Cons:
  "present_commands src ad cd ((a, c) # entries)
     = (case read_file src (ad @ [a]) of None \<Rightarrow> [] | Some t \<Rightarrow> [cd @ [c]])
       @ present_commands src ad cd entries"
  by (simp add: present_commands_def)

lemma absent_agents_Cons:
  "absent_agents src ad ((a, c) # entries)
     = (case read_file src (ad @ [a]) of None \<Rightarrow> [Not_found_skipping (ad @ [a])] | Some t \<Rightarrow> [])
       @ absent_agents src ad entries"
  by (simp add: absent_agents_def)

lemma present_commands_mem:
  "p \<in> set (present_commands src ad cd entries)
     \<longleftrightarrow> (\<exists>a c. (a, c) \<in> set entries \<and> read_file src (ad @ [a]) \<noteq> None \<and> p = cd @ [c])"
proof (induction entries)
  case Nil
  then show ?case by (simp add: present_commands_def)
next
  case (Cons e entries)
  obtain a c where e: "e = (a, c)" by (cases e)
  show ?case
    unfolding e present_commands_Cons using Cons.IH
    by (cases "read_file src (ad @ [a])") auto
qed

lemma absent_agents_mem:
  "l \<in> set (absent_agents src ad entries)
     \<longleftrightarrow> (\<exists>a c. (a, c) \<in> set entries \<and> read_file src (ad @ [a]) = None
            \<and> l = Not_found_skipping (ad @ [a]))"
proof (induction entries)
  case Nil
  then show ?case by (simp add: absent_agents_def)
next
  case (Cons e entries)
  obtain a c where e: "e = (a, c)" by (cases e)
  show ?case
    unfolding e absent_agents_Cons using Cons.IH
    by (cases "read_file src (ad @ [a])") auto
qed

lemma present_commands_distinct:
  "distinct (map snd entries) \<Longrightarrow> distinct (present_commands src ad cd entries)"
proof (induction entries)
  case Nil
  then show ?case by (simp add: present_commands_def)
next
  case (Cons e entries)
  obtain a c where e: "e = (a, c)" by (cases e)
  from Cons.prems e have c: "c \<notin> snd ` set entries" and d: "distinct (map snd entries)" by auto
  from c have "cd @ [c] \<notin> set (present_commands src ad cd entries)"
    unfolding present_commands_mem by (auto simp: image_iff)
  moreover have "present_commands src ad cd (e # entries)
      = (case read_file src (ad @ [a]) of None \<Rightarrow> [] | Some t \<Rightarrow> [cd @ [c]])
        @ present_commands src ad cd entries"
    unfolding e by (rule present_commands_Cons)
  ultimately show ?case using Cons.IH [OF d] by (simp split: option.splits)
qed

lemma absent_agents_distinct:
  "distinct (map fst entries) \<Longrightarrow> distinct (absent_agents src ad entries)"
proof (induction entries)
  case Nil
  then show ?case by (simp add: absent_agents_def)
next
  case (Cons e entries)
  obtain a c where e: "e = (a, c)" by (cases e)
  from Cons.prems e have c: "a \<notin> fst ` set entries" and d: "distinct (map fst entries)" by auto
  from c have "Not_found_skipping (ad @ [a]) \<notin> set (absent_agents src ad entries)"
    unfolding absent_agents_mem by (auto simp: image_iff)
  moreover have "absent_agents src ad (e # entries)
      = (case read_file src (ad @ [a]) of None \<Rightarrow> [Not_found_skipping (ad @ [a])] | Some t \<Rightarrow> [])
        @ absent_agents src ad entries"
    unfolding e by (rule absent_agents_Cons)
  ultimately show ?case using Cons.IH [OF d] by (simp split: option.splits)
qed

lemma agent_effects_warnings:
  "warnings (concat (map (agent_effects src ad cd dry_run) entries)) = absent_agents src ad entries"
  by (induction entries)
     (auto simp: agent_effects_def absent_agents_def warnings_append split: option.splits)

lemma agent_files:
  assumes "distinct (map snd entries)" "(a, c) \<in> set entries" "read_file src (ad @ [a]) = Some t"
  shows "files (run_effects (concat (map (agent_effects src ad cd False) entries)) w) (cd @ [c])
           = Some (command_content t c)"
  using assms
proof (induction entries arbitrary: w)
  case Nil
  then show ?case by simp
next
  case (Cons e entries)
  let ?rest = "concat (map (agent_effects src ad cd False) entries)"
  from Cons.prems(1) have d: "distinct (map snd entries)" by simp
  show ?case
  proof (cases "e = (a, c)")
    case True
    from Cons.prems(1) True have "c \<notin> snd ` set entries" by auto
    then have "cd @ [c] \<notin> set (present_commands src ad cd entries)"
      unfolding present_commands_mem by (auto simp: image_iff)
    then have n: "cd @ [c] \<notin> set (written ?rest)" by (simp add: agent_effects_apply)
    have "agent_effects src ad cd False e
        = [Mkdir_parents (parent (cd @ [c])), Write_text (cd @ [c]) (command_content t c),
           Print (Created (cd @ [c]))]"
      using True Cons.prems(3) by (simp add: agent_effects_def)
    then show ?thesis
      using n by (simp add: run_effects_append run_effects_Cons run_effects_Nil files_untouched)
  next
    case False
    with Cons.prems(2) have "(a, c) \<in> set entries" by simp
    from Cons.IH [OF d this Cons.prems(3)] show ?thesis
      by (simp add: run_effects_append)
  qed
qed

lemma command_stem_all:
  "list_all (\<lambda>(a, c). c = replace ''.md'' [] c @ ''.md'') AGENT_TO_COMMAND"
  by code_simp

lemma command_stem:
  assumes "(a, c) \<in> set AGENT_TO_COMMAND"
  shows "c = replace ''.md'' [] c @ ''.md''"
  using command_stem_all assms by (auto simp: list_all_iff)

lemma AGENT_TO_COMMAND_distinct:
  "distinct (map fst AGENT_TO_COMMAND)" "distinct (map snd AGENT_TO_COMMAND)"
  by (simp_all add: AGENT_TO_COMMAND_def)

lemma convert_agents_eq:
  assumes "dir_exists src (sd @ [''agents''])"
  shows "convert_agents_to_commands root src sd dry_run =
     (Inr (present_commands src (sd @ [''agents'']) (root @ [''commands'']) AGENT_TO_COMMAND),
      concat (map (agent_effects src (sd @ [''agents'']) (root @ [''commands'']) dry_run) AGENT_TO_COMMAND))"
  using assms by (simp add: convert_agents_to_commands_def Let_def agents_loop_eq)


lemma mirror_target_inj:
  assumes "prefix ctx p" "prefix ctx q" "mirror_target ctx refs p = mirror_target ctx refs q"
  shows "p = q"
proof -
  from assms(1) obtain x where x: "p = ctx @ x" by (auto simp: prefix_def)
  from assms(2) obtain y where y: "q = ctx @ y" by (auto simp: prefix_def)
  from assms(3) show ?thesis unfolding x y by (simp add: mirror_target_def)
qed

lemma mirror_targets_distinct:
  assumes "distinct (map fst listing)" "\<forall>e\<in>set listing. prefix ctx (fst e)"
  shows "distinct (map (\<lambda>e. mirror_target ctx refs (fst e)) listing)"
proof -
  have e: "map (\<lambda>e. mirror_target ctx refs (fst e)) listing
      = map (mirror_target ctx refs) (map fst listing)" by simp
  have "inj_on (mirror_target ctx refs) (set (map fst listing))"
    using assms(2) by (auto intro!: inj_onI dest: mirror_target_inj)
  with assms(1) have "distinct (map (mirror_target ctx refs) (map fst listing))"
    unfolding distinct_map by blast
  then show ?thesis unfolding e .
qed

lemma mirror_files:
  assumes "distinct (map fst listing)" "\<forall>e\<in>set listing. prefix ctx (fst e)"
    "(p, content) \<in> set listing"
  shows "files (run_effects (concat (map (mirror_effects ctx refs False) listing)) w)
           (mirror_target ctx refs p)
         = Some (ddd_inject_credit (ddd_transform_references content))"
  using assms
proof (induction listing arbitrary: w)
  case Nil
  then show ?case by simp
next
  case (Cons e listing)
  let ?rest = "concat (map (mirror_effects ctx refs False) listing)"
  from Cons.prems(1) have d: "distinct (map fst listing)" by simp
  from Cons.prems(2) have pr: "\<forall>e\<in>set listing. prefix ctx (fst e)" by simp
  show ?case
  proof (cases "e = (p, content)")
    case True
    have "mirror_target ctx refs p \<notin> set (written ?rest)"
    proof
      assume "mirror_target ctx refs p \<in> set (written ?rest)"
      then obtain e' where e': "e' \<in> set listing"
        "mirror_target ctx refs (fst e') = mirror_target ctx refs p"
        by (auto simp: mirror_effects_apply)
      from Cons.prems(2) True e'(1) have "prefix ctx p" "prefix ctx (fst e')" by auto
      from mirror_target_inj [OF this(2,1) e'(2)] have "fst e' = p" .
      with e'(1) have "p \<in> fst ` set listing" by force
      with Cons.prems(1) True show False by simp
    qed
    moreover have "mirror_effects ctx refs False e
        = [Mkdir_parents (parent (mirror_target ctx refs p)),
           Write_text (mirror_target ctx refs p) (ddd_inject_credit (ddd_transform_references content)),
           Print (Created (mirror_target ctx refs p))]"
      using True by (simp add: mirror_effects_def)
    ultimately show ?thesis
      by (simp add: run_effects_append run_effects_Cons run_effects_Nil files_untouched)
  next
    case False
    with Cons.prems(3) have "(p, content) \<in> set listing" by simp
    from Cons.IH [OF d pr this] show ?thesis
      by (simp add: run_effects_append)
  qed
qed

lemma rglob_md_prefix: "\<forall>e\<in>set (rglob_md src d). prefix d (fst e)"
  by (auto simp: rglob_md_def strict_prefix_def)

lemma rglob_md_distinct:
  "distinct (map fst (src_files src)) \<Longrightarrow> distinct (map fst (rglob_md src d))"
  by (simp add: rglob_md_def distinct_map_filter)

lemma file_below_implies_dir:
  assumes "(d @ rel, t) \<in> set (src_files src)" "rel \<noteq> []"
  shows "dir_exists src d"
proof -
  from assms(2) have "strict_prefix d (d @ rel)" by (simp add: strict_prefix_def)
  with assms(1) show ?thesis by (auto simp: dir_exists_def list_ex_iff)
qed

lemma copy_context_eq:
  assumes "dir_exists src (sd @ [''context''])"
  shows "copy_context_to_skills root src sd dry_run =
     (Inr (map (\<lambda>e. mirror_target (sd @ [''context'']) (root @ [''skills'', ''ddd-guide'', ''references'']) (fst e))
            (rglob_md src (sd @ [''context'']))),
      concat (map (mirror_effects (sd @ [''context'']) (root @ [''skills'', ''ddd-guide'', ''references'']) dry_run)
            (rglob_md src (sd @ [''context'']))))"
  using assms by (simp add: copy_context_to_skills_def Let_def context_loop_eq)


section \<open>The substitutions of the scripts in direct form\<close>

text \<open>Every template of the two rule lists refers to groups of its pattern only.\<close>

lemma REFERENCE_PATTERNS_wellformed:
  "list_all rule_wellformed core_REFERENCE_PATTERNS"
  "list_all rule_wellformed ddd_REFERENCE_PATTERNS"
  by code_simp+

text \<open>A pattern without operators is replaced as \<open>str.replace\<close> does it.\<close>

lemma prefix_drop_Cons:
  "prefix (c # l) (drop i s) \<longleftrightarrow> i < length s \<and> s ! i = c \<and> prefix l (drop (Suc i) s)"
proof (cases "i < length s")
  case True
  then have "drop i s = s ! i # drop (Suc i) s" by (simp add: Cons_nth_drop_Suc)
  with True show ?thesis by auto
next
  case False
  then show ?thesis by simp
qed

lemma rx_match_lits:
  "rx_match (lits l @ r) s i opens caps =
     (if prefix l (drop i s) then rx_match r s (i + length l) opens caps else None)"
proof (induction l arbitrary: i)
  case Nil
  then show ?case by (simp add: lits_def)
next
  case (Cons c l)
  have "rx_match (lits (c # l) @ r) s i opens caps =
      (if i < length s \<and> s ! i = c then rx_match (lits l @ r) s (Suc i) opens caps else None)"
    by (simp add: lits_def)
  then show ?case by (simp add: Cons.IH prefix_drop_Cons)
qed

lemma expand_rlits: "expand (rlits r) caps = r"
  by (induction r) (simp_all add: rlits_def)

lemma sub_from_lits:
  assumes "l \<noteq> []"
  shows "i \<le> length s \<Longrightarrow> sub_from (lits l) (rlits r) s i = replace l r (drop i s)"
proof (induction "length s - i" arbitrary: i rule: less_induct)
  case less
  have m: "rx_match (lits l) s i [] [] = (if prefix l (drop i s) then Some (i + length l, []) else None)"
    using rx_match_lits [of l "[]" s i "[]" "[]"] by simp
  show ?case
  proof (cases "prefix l (drop i s)")
    case True
    then have le: "i + length l \<le> length s"
      using prefix_length_le [of l "drop i s"] less.prems by simp
    from assms have pos: "i < i + length l" by simp
    with le have "i < length s" by linarith
    then obtain c cs where d: "drop i s = c # cs" by (cases "drop i s") simp_all
    have dd: "drop (length l) (c # cs) = drop (i + length l) s"
      unfolding d [symmetric] by (simp add: add.commute)
    have "sub_from (lits l) (rlits r) s i = r @ sub_from (lits l) (rlits r) s (i + length l)"
      using True less.prems pos by (subst sub_from.simps) (simp add: m expand_rlits)
    also have "sub_from (lits l) (rlits r) s (i + length l) = replace l r (drop (i + length l) s)"
    proof (rule less.hyps)
      from le pos show "length s - (i + length l) < length s - i" by linarith
      from le show "i + length l \<le> length s" .
    qed
    also have "r @ replace l r (drop (i + length l) s) = replace l r (c # cs)"
      using True assms unfolding d dd [symmetric] by simp
    also have "c # cs = drop i s" by (simp only: d)
    finally show ?thesis .
  next
    case False
    show ?thesis
    proof (cases "i < length s")
      case True
      then have d: "drop i s = s ! i # drop (Suc i) s" by (simp add: Cons_nth_drop_Suc)
      have "sub_from (lits l) (rlits r) s i = s ! i # sub_from (lits l) (rlits r) s (Suc i)"
        using False True by (subst sub_from.simps) (simp add: m)
      also have "sub_from (lits l) (rlits r) s (Suc i) = replace l r (drop (Suc i) s)"
        using True by (intro less.hyps) simp_all
      finally show ?thesis using False unfolding d by simp
    next
      case nl: False
      with less.prems have e: "i = length s" by simp
      from m False have n: "rx_match (lits l) s (length s) [] [] = None" unfolding e by simp
      show ?thesis unfolding e by (subst sub_from.simps) (simp add: n)
    qed
  qed
qed

lemma re_sub_lits: "l \<noteq> [] \<Longrightarrow> re_sub (lits l) (rlits r) s = replace l r s"
  using sub_from_lits [of l 0 s r] by (simp add: re_sub_def)

lemma ddd_transform_references_replace:
  "ddd_transform_references content =
     replace ''@foundation:'' ''@skills/amplifier-philosophy/''
       (replace ''@foundation:MODULAR_DESIGN_PHILOSOPHY.md'' ''@skills/amplifier-philosophy/SKILL.md''
         (replace ''@foundation:IMPLEMENTATION_PHILOSOPHY.md'' ''@skills/amplifier-philosophy/SKILL.md''
           (replace ''@ddd:'' ''@skills/ddd-guide/references/''
             (replace ''@ddd:context/'' ''@skills/ddd-guide/references/'' content))))"
  by (simp add: ddd_transform_references_def ddd_REFERENCE_PATTERNS_def re_sub_lits)

text \<open>The pattern of \<open>update_frontmatter_name\<close> matches as the direct form says.\<close>

lemma rev_upt_Suc: "rev [0..<Suc n] = n # rev [0..<n]"
  by simp

lemma takeWhile_stops:
  assumes "j \<le> length s"
  shows "j + length (takeWhile P (drop j s)) = length s
     \<or> (j + length (takeWhile P (drop j s)) < length s
         \<and> \<not> P (s ! (j + length (takeWhile P (drop j s)))))"
proof (cases "length (takeWhile P (drop j s)) < length (drop j s)")
  case True
  then have "\<not> P (drop j s ! length (takeWhile P (drop j s)))" by (rule nth_length_takeWhile)
  moreover from True have "j + length (takeWhile P (drop j s)) < length s" by simp
  ultimately show ?thesis using assms by simp
next
  case False
  moreover have "length (takeWhile P (drop j s)) \<le> length (drop j s)" by (rule length_takeWhile_le)
  ultimately have "length (takeWhile P (drop j s)) = length (drop j s)" by simp
  with assms show ?thesis by simp
qed

lemma cls_match_Dot: "cls_match Dot = (\<lambda>c. c \<noteq> newline)"
  by (rule ext) simp

lemma cls_match_Space: "cls_match Space = isspace"
  by (rule ext) simp

lemma rx_match_Many_greedy:
  assumes "rx_match r s (i + length (takeWhile (cls_match c) (drop i s))) opens caps = Some res"
  shows "rx_match (Many 0 c # r) s i opens caps = Some res"
  by (simp only: rx_match.simps(3) rev_upt_Suc first_match.simps assms option.case)

lemma rx_match_name_tail:
  assumes "j \<le> length s"
  shows "rx_match [Many 0 Space, Many 0 Dot, Eol] s j opens caps =
     Some (j + length (takeWhile isspace (drop j s))
             + length (takeWhile (\<lambda>c. c \<noteq> newline) (drop (j + length (takeWhile isspace (drop j s))) s)),
           caps)"
proof -
  let ?k1 = "length (takeWhile isspace (drop j s))"
  let ?k2 = "length (takeWhile (\<lambda>c. c \<noteq> newline) (drop (j + ?k1) s))"
  have "?k1 \<le> length (drop j s)" by (rule length_takeWhile_le)
  with assms have le: "j + ?k1 \<le> length s" by simp
  from takeWhile_stops [OF le, of "\<lambda>c. c \<noteq> newline"]
  have eol: "j + ?k1 + ?k2 = length s \<or> (j + ?k1 + ?k2 < length s \<and> s ! (j + ?k1 + ?k2) = newline)"
    by simp
  have e: "rx_match [Eol] s (j + ?k1 + ?k2) opens caps = Some (j + ?k1 + ?k2, caps)"
    using eol by auto
  have d: "rx_match [Many 0 Dot, Eol] s (j + ?k1) opens caps = Some (j + ?k1 + ?k2, caps)"
    by (rule rx_match_Many_greedy) (simp only: cls_match_Dot e)
  show ?thesis
    by (rule rx_match_Many_greedy) (simp only: cls_match_Space d)
qed

lemma rx_match_name_line:
  assumes "i \<le> length s"
  shows "rx_match name_line s i [] [] =
     (if (i = 0 \<or> s ! (i - 1) = newline) \<and> prefix ''name:'' (drop i s)
      then Some (i + 5 + length (takeWhile isspace (drop (i + 5) s))
             + length (takeWhile (\<lambda>c. c \<noteq> newline)
                         (drop (i + 5 + length (takeWhile isspace (drop (i + 5) s))) s)), [])
      else None)"
proof -
  let ?R = "[Many 0 Space, Many 0 Dot, Eol]"
  have n: "name_line = Bol # (lits ''name:'' @ ?R)" by (simp add: name_line_def)
  have b: "rx_match name_line s i [] [] =
      (if i = 0 \<or> s ! (i - 1) = newline then rx_match (lits ''name:'' @ ?R) s i [] [] else None)"
    unfolding n using assms by (simp only: rx_match.simps(6)) simp
  have l: "rx_match (lits ''name:'' @ ?R) s i [] [] =
      (if prefix ''name:'' (drop i s) then rx_match ?R s (i + 5) [] [] else None)"
  proof -
    have five: "length ''name:'' = 5" by simp
    show ?thesis by (simp only: rx_match_lits five)
  qed
  show ?thesis
  proof (cases "(i = 0 \<or> s ! (i - 1) = newline) \<and> prefix ''name:'' (drop i s)")
    case True
    then have "length ''name:'' \<le> length (drop i s)" by (intro prefix_length_le) simp
    then have le: "i + 5 \<le> length s" by simp
    from True show ?thesis
      by (simp only: b l rx_match_name_tail [OF le] if_True simp_thms)
  next
    case False
    then show ?thesis unfolding b l by (auto simp del: rx_match.simps)
  qed
qed

lemma rewrite_names_flag:
  "s = [] \<or> hd s = newline \<Longrightarrow> rewrite_names n b s = rewrite_names n False s"
  by (cases s) (auto simp: newline_def)

lemma name_line_step_match:
  assumes "i \<le> length s"
    and "(i = 0 \<or> s ! (i - 1) = newline) \<and> prefix ''name:'' (drop i s)"
  shows "\<exists>j. i < j \<and> j \<le> length s
           \<and> sub_from name_line (rlits (''name: '' @ n)) s i
               = ''name: '' @ n @ sub_from name_line (rlits (''name: '' @ n)) s j
           \<and> (drop j s = [] \<or> hd (drop j s) = newline)
           \<and> dropWhile (\<lambda>x. x \<noteq> newline) (dropWhile isspace (drop 5 (drop i s))) = drop j s"
proof -
  let ?t = "rlits (''name: '' @ n)"
  let ?k1 = "length (takeWhile isspace (drop (i + 5) s))"
  let ?k2 = "length (takeWhile (\<lambda>c. c \<noteq> newline) (drop (i + 5 + ?k1) s))"
  let ?j = "i + 5 + ?k1 + ?k2"
  from assms(2) have "length ''name:'' \<le> length (drop i s)" by (intro prefix_length_le) simp
  then have le5: "i + 5 \<le> length s" by simp
  have "?k1 \<le> length (drop (i + 5) s)" by (rule length_takeWhile_le)
  with le5 have le1: "i + 5 + ?k1 \<le> length s" by simp
  have "?k2 \<le> length (drop (i + 5 + ?k1) s)" by (rule length_takeWhile_le)
  with le1 have le: "?j \<le> length s" by simp
  have lt: "i < ?j" by simp
  from takeWhile_stops [OF le1, of "\<lambda>c. c \<noteq> newline"]
  have "?j = length s \<or> (?j < length s \<and> s ! ?j = newline)" by simp
  then have eol: "drop ?j s = [] \<or> hd (drop ?j s) = newline"
  proof
    assume "?j = length s"
    then show ?thesis by simp
  next
    assume a: "?j < length s \<and> s ! ?j = newline"
    then have "hd (drop ?j s) = s ! ?j" by (intro hd_drop_conv_nth) simp
    with a show ?thesis by simp
  qed
  have r1: "dropWhile isspace (drop 5 (drop i s)) = drop (i + 5 + ?k1) s"
    by (simp add: dropWhile_eq_drop add.commute add.left_commute)
  have r: "dropWhile (\<lambda>x. x \<noteq> newline) (dropWhile isspace (drop 5 (drop i s))) = drop ?j s"
    unfolding r1 by (simp add: dropWhile_eq_drop add.commute add.left_commute)
  have m: "rx_match name_line s i [] [] = Some (?j, [])"
    using rx_match_name_line [OF assms(1)] assms(2) by simp
  have "sub_from name_line ?t s i = ''name: '' @ n @ sub_from name_line ?t s ?j"
    using assms(1) lt by (subst sub_from.simps) (simp add: m expand_rlits del: sub_from.simps)
  with lt le eol r show ?thesis by blast
qed


lemma name_line_step_copy:
  assumes "i \<le> length s"
    and "\<not> ((i = 0 \<or> s ! (i - 1) = newline) \<and> prefix ''name:'' (drop i s))"
  shows "sub_from name_line (rlits (''name: '' @ n)) s i
           = (if i < length s then s ! i # sub_from name_line (rlits (''name: '' @ n)) s (Suc i) else [])"
proof -
  have m: "rx_match name_line s i [] [] = None"
    using rx_match_name_line [OF assms(1)] assms(2) by simp
  show ?thesis
    using assms(1) by (subst sub_from.simps) (simp add: m del: sub_from.simps)
qed

lemma sub_from_name_line:
  "i \<le> length s \<Longrightarrow>
     sub_from name_line (rlits (''name: '' @ n)) s i =
       rewrite_names n (i = 0 \<or> s ! (i - 1) = newline) (drop i s)"
proof (induction "length s - i" arbitrary: i rule: less_induct)
  case less
  let ?t = "rlits (''name: '' @ n)"
  show ?case
  proof (cases "(i = 0 \<or> s ! (i - 1) = newline) \<and> prefix ''name:'' (drop i s)")
    case True
    from name_line_step_match [OF less.prems True, of n] obtain j where
      j: "i < j" "j \<le> length s"
      and st: "sub_from name_line ?t s i = ''name: '' @ n @ sub_from name_line ?t s j"
      and eol: "drop j s = [] \<or> hd (drop j s) = newline"
      and r: "dropWhile (\<lambda>x. x \<noteq> newline) (dropWhile isspace (drop 5 (drop i s))) = drop j s"
      by blast
    from True have "drop i s \<noteq> []" by auto
    then obtain c cs where d: "drop i s = c # cs" by (cases "drop i s") simp_all
    have "sub_from name_line ?t s j = rewrite_names n (j = 0 \<or> s ! (j - 1) = newline) (drop j s)"
    proof (rule less.hyps)
      from j show "length s - j < length s - i" by linarith
      from j show "j \<le> length s" by simp
    qed
    also have "\<dots> = rewrite_names n False (drop j s)"
      using eol by (rule rewrite_names_flag)
    finally have "sub_from name_line ?t s i = ''name: '' @ n @ rewrite_names n False (drop j s)"
      using st by simp
    also have "\<dots> = rewrite_names n (i = 0 \<or> s ! (i - 1) = newline) (c # cs)"
      using True unfolding r [symmetric] d by simp
    finally show ?thesis unfolding d .
  next
    case False
    note st = name_line_step_copy [OF less.prems False, of n]
    show ?thesis
    proof (cases "i < length s")
      case True
      then have d: "drop i s = s ! i # drop (Suc i) s" by (simp add: Cons_nth_drop_Suc)
      have "sub_from name_line ?t s (Suc i)
          = rewrite_names n (Suc i = 0 \<or> s ! (Suc i - 1) = newline) (drop (Suc i) s)"
        using True by (intro less.hyps) simp_all
      then have "sub_from name_line ?t s i
          = s ! i # rewrite_names n (s ! i = newline) (drop (Suc i) s)"
        using st True by simp
      also have "\<dots> = rewrite_names n (i = 0 \<or> s ! (i - 1) = newline) (s ! i # drop (Suc i) s)"
        using False unfolding d by auto
      finally show ?thesis unfolding d .
    next
      case nl: False
      with less.prems have "drop i s = []" by simp
      with st nl show ?thesis by simp
    qed
  qed
qed

lemma re_sub_name_line:
  "re_sub name_line (rlits (''name: '' @ n)) s = rewrite_names n True s"
  using sub_from_name_line [of 0 s n] by (simp add: re_sub_def)

text \<open>
  The content of a command file, in direct form: with a frontmatter block, the block with its
  \<open>name\<close> lines rewritten, then the banner, then the body; without one, the banner and the
  transformed source.
\<close>

lemma command_content_frontmatter:
  assumes "startswith (ddd_transform_references t) ''---''"
    and "find_sep ''---'' (drop 3 (ddd_transform_references t)) = Some (fm, body)"
  shows "command_content t c =
     ''---'' @ rewrite_names (replace ''.md'' [] c) True fm @ ''---'' @ [newline, newline]
       @ ddd_CREDIT_COMMENT @ lstrip body"
proof -
  let ?x = "[newline, newline] @ ddd_CREDIT_COMMENT @ lstrip body"
  have i: "ddd_inject_credit (ddd_transform_references t) = ''---'' @ fm @ ''---'' @ ?x"
    using assms by (rule ddd_inject_credit_frontmatter)
  have "\<not> sublist ''---'' (fm @ butlast ''---'')"
    by (rule find_sep_first [OF _ assms(2)]) simp
  then have "find_sep ''---'' (fm @ ''---'' @ ?x) = Some (fm, ?x)"
    by (intro find_sep_at) simp_all
  then have f: "find_sep ''---'' (drop 3 (''---'' @ fm @ ''---'' @ ?x)) = Some (fm, ?x)" by simp
  have s: "startswith (''---'' @ fm @ ''---'' @ ?x) ''---''" by (simp add: startswith_def)
  show ?thesis
    unfolding command_content_def i update_frontmatter_name_frontmatter [OF s f] re_sub_name_line
    by simp
qed

lemma command_content_plain:
  assumes "\<not> (startswith (ddd_transform_references t) ''---''
              \<and> sublist ''---'' (drop 3 (ddd_transform_references t)))"
  shows "command_content t c = ddd_CREDIT_COMMENT @ ddd_transform_references t"
proof -
  have "\<not> startswith (ddd_CREDIT_COMMENT @ ddd_transform_references t) ''---''"
    by (simp add: startswith_def ddd_CREDIT_COMMENT_def)
  then show ?thesis
    unfolding command_content_def ddd_inject_credit_plain [OF assms]
    by (intro update_frontmatter_name_plain) simp
qed


section \<open>The claims about the pure functions\<close>

text \<open>
  Claim C1, as amended. \<open>inject_credit\<close> of \<open>sync_ddd.py\<close> follows the positional rule: when the
  content begins with \<open>---\<close> and holds a closing \<open>---\<close>, the banner comes after the first
  closing delimiter, behind a line break and one blank line, and before the remaining body, whose
  leading white space is dropped; otherwise the banner is the first bytes of the output.
  \<open>inject_credit\<close> of \<open>sync_amplifier_core.py\<close> puts the banner first whatever the content is.
\<close>

theorem inject_credit_position:
  "(startswith content ''---'' \<and> sublist ''---'' (drop 3 content) \<longrightarrow>
      (\<exists>fm body. content = ''---'' @ fm @ ''---'' @ body \<and> \<not> sublist ''---'' (fm @ ''--'')
         \<and> ddd_inject_credit content =
             ''---'' @ fm @ ''---'' @ [newline, newline] @ ddd_CREDIT_COMMENT @ lstrip body))
   \<and> (\<not> (startswith content ''---'' \<and> sublist ''---'' (drop 3 content)) \<longrightarrow>
      ddd_inject_credit content = ddd_CREDIT_COMMENT @ content)
   \<and> core_inject_credit content = core_CREDIT_COMMENT @ content"
proof (intro conjI impI)
  assume "startswith content ''---'' \<and> sublist ''---'' (drop 3 content)"
  then have s: "startswith content ''---''" and d: "sublist ''---'' (drop 3 content)" by simp_all
  from frontmatter_decomp [OF s d] obtain fm body where
    f: "find_sep ''---'' (drop 3 content) = Some (fm, body)"
    and c: "content = ''---'' @ fm @ ''---'' @ body" and n: "\<not> sublist ''---'' (fm @ ''--'')"
    by blast
  from ddd_inject_credit_frontmatter [OF s f] c n
  show "\<exists>fm body. content = ''---'' @ fm @ ''---'' @ body \<and> \<not> sublist ''---'' (fm @ ''--'')
         \<and> ddd_inject_credit content =
             ''---'' @ fm @ ''---'' @ [newline, newline] @ ddd_CREDIT_COMMENT @ lstrip body"
    by blast
next
  assume "\<not> (startswith content ''---'' \<and> sublist ''---'' (drop 3 content))"
  then show "ddd_inject_credit content = ddd_CREDIT_COMMENT @ content"
    by (rule ddd_inject_credit_plain)
next
  show "core_inject_credit content = core_CREDIT_COMMENT @ content"
    by (simp add: core_inject_credit_def)
qed

text \<open>The theorem of C1 at a content with a frontmatter block and at one without.\<close>

lemma sublist_example_frontmatter: "sublist ''---'' ''\<newline>name: x\<newline>---\<newline>\<newline>Body''"
  using sublist_appendI [of "''---''" "''\<newline>name: x\<newline>''" "''\<newline>\<newline>Body''"] by simp

theorem inject_credit_position_witness:
  "(startswith ''---\<newline>name: x\<newline>---\<newline>\<newline>Body'' ''---''
      \<and> sublist ''---'' (drop 3 ''---\<newline>name: x\<newline>---\<newline>\<newline>Body''))
   \<and> (\<exists>fm body. ''---\<newline>name: x\<newline>---\<newline>\<newline>Body'' = ''---'' @ fm @ ''---'' @ body
         \<and> \<not> sublist ''---'' (fm @ ''--'')
         \<and> ddd_inject_credit ''---\<newline>name: x\<newline>---\<newline>\<newline>Body'' =
             ''---'' @ fm @ ''---'' @ [newline, newline] @ ddd_CREDIT_COMMENT @ lstrip body)
   \<and> \<not> (startswith ''# Title'' ''---'' \<and> sublist ''---'' (drop 3 ''# Title''))
   \<and> ddd_inject_credit ''# Title'' = ddd_CREDIT_COMMENT @ ''# Title''"
proof -
  have h: "startswith ''---\<newline>name: x\<newline>---\<newline>\<newline>Body'' ''---''
      \<and> sublist ''---'' (drop 3 ''---\<newline>name: x\<newline>---\<newline>\<newline>Body'')"
    using sublist_example_frontmatter by (simp add: startswith_def)
  have g: "\<not> (startswith ''# Title'' ''---'' \<and> sublist ''---'' (drop 3 ''# Title''))"
    by (simp add: startswith_def)
  show ?thesis
    using h g inject_credit_position [of "''---\<newline>name: x\<newline>---\<newline>\<newline>Body''"]
      inject_credit_position [of "''# Title''"]
    by blast
qed

text \<open>
  Claim C1 as stated fails for \<open>sync_amplifier_core.py\<close>: on a content that begins with a
  frontmatter block, the banner is put in front of the block, not behind its closing delimiter.
\<close>

theorem core_inject_credit_counterexample:
  "startswith ''---\<newline>name: x\<newline>---\<newline>Body'' ''---''
   \<and> core_inject_credit ''---\<newline>name: x\<newline>---\<newline>Body'' =
       core_CREDIT_COMMENT @ ''---\<newline>name: x\<newline>---\<newline>Body''
   \<and> \<not> startswith (core_inject_credit ''---\<newline>name: x\<newline>---\<newline>Body'') ''---''"
  by (simp add: core_inject_credit_def core_CREDIT_COMMENT_def startswith_def)

text \<open>
  Claim C2. For every content, \<open>transform_references\<close> is the left fold of the rule list of its
  script, starting from the content: each rule's substitution runs over the whole result of the
  rule before it, in the order of the list.
\<close>

theorem transform_references_fold:
  "core_transform_references content =
     foldl (\<lambda>result (pattern, replacement). re_sub pattern replacement result) content core_REFERENCE_PATTERNS
   \<and> ddd_transform_references content =
     foldl (\<lambda>result (pattern, replacement). re_sub pattern replacement result) content ddd_REFERENCE_PATTERNS"
  by (simp add: core_transform_references_def ddd_transform_references_def transform_loop_foldl)

text \<open>
  Claim C7. The order of the rules can be observed: there is a content holding
  \<open>@ddd:context/\<close> on which the rule list of \<open>sync_ddd.py\<close> and the same list with its first
  two rules exchanged give different results.
\<close>

theorem rule_order_observable:
  "\<exists>content. sublist ''@ddd:context/'' content
     \<and> transform_loop ddd_REFERENCE_PATTERNS content
         \<noteq> transform_loop (swap_rules 0 1 ddd_REFERENCE_PATTERNS) content"
proof -
  have "sublist ''@ddd:context/'' ''@ddd:context/x''"
    using sublist_appendI [of "''@ddd:context/''" "[]" "''x''"] by simp
  moreover have "transform_loop ddd_REFERENCE_PATTERNS ''@ddd:context/x''
      = ''@skills/ddd-guide/references/x''"
    by code_simp
  moreover have "transform_loop (swap_rules 0 1 ddd_REFERENCE_PATTERNS) ''@ddd:context/x''
      = ''@skills/ddd-guide/references/context/x''"
    by code_simp
  ultimately show ?thesis by (intro exI [of _ "''@ddd:context/x''"]) simp
qed

text \<open>
  Claim C9. For a content that begins with \<open>---\<close> and holds a closing \<open>---\<close>,
  \<open>inject_credit\<close> of \<open>sync_ddd.py\<close> does not keep the body as it is: what follows the banner is
  the text behind the closing delimiter without its leading white space, so that the body is
  kept only when it has none; and the closing delimiter is followed by a line break and
  exactly one blank line before the banner.
\<close>

theorem ddd_inject_credit_strips_body:
  assumes "startswith content ''---''" and "sublist ''---'' (drop 3 content)"
  shows "\<exists>fm ws body. content = ''---'' @ fm @ ''---'' @ ws @ body
           \<and> \<not> sublist ''---'' (fm @ ''--'')
           \<and> (\<forall>c\<in>set ws. isspace c)
           \<and> (case body of [] \<Rightarrow> True | c # _ \<Rightarrow> \<not> isspace c)
           \<and> (ws @ body = body) = (ws = [])
           \<and> ddd_inject_credit content =
               ''---'' @ fm @ ''---'' @ [newline, newline] @ ddd_CREDIT_COMMENT @ body
           \<and> prefix ''<!--'' ddd_CREDIT_COMMENT"
proof -
  from frontmatter_decomp [OF assms] obtain fm rest where
    f: "find_sep ''---'' (drop 3 content) = Some (fm, rest)"
    and c: "content = ''---'' @ fm @ ''---'' @ rest" and n: "\<not> sublist ''---'' (fm @ ''--'')"
    by blast
  from lstrip_decomp [of rest] obtain ws where
    w: "rest = ws @ lstrip rest" "\<forall>c\<in>set ws. isspace c"
       "case lstrip rest of [] \<Rightarrow> True | c # _ \<Rightarrow> \<not> isspace c"
    by blast
  have p: "prefix ''<!--'' ddd_CREDIT_COMMENT" by (simp add: ddd_CREDIT_COMMENT_def)
  from c w(1) have "content = ''---'' @ fm @ ''---'' @ ws @ lstrip rest" by simp
  moreover have "(ws @ lstrip rest = lstrip rest) = (ws = [])" by simp
  ultimately show ?thesis
    using n w(2,3) ddd_inject_credit_frontmatter [OF assms(1) f] p by blast
qed

text \<open>The theorem of C9 at a content whose body begins with a blank line.\<close>

theorem ddd_inject_credit_strips_body_witness:
  "startswith ''---\<newline>name: x\<newline>---\<newline>\<newline>Body'' ''---''
   \<and> sublist ''---'' (drop 3 ''---\<newline>name: x\<newline>---\<newline>\<newline>Body'')
   \<and> (\<exists>fm ws body. ''---\<newline>name: x\<newline>---\<newline>\<newline>Body'' = ''---'' @ fm @ ''---'' @ ws @ body
           \<and> \<not> sublist ''---'' (fm @ ''--'')
           \<and> (\<forall>c\<in>set ws. isspace c)
           \<and> (case body of [] \<Rightarrow> True | c # _ \<Rightarrow> \<not> isspace c)
           \<and> (ws @ body = body) = (ws = [])
           \<and> ddd_inject_credit ''---\<newline>name: x\<newline>---\<newline>\<newline>Body'' =
               ''---'' @ fm @ ''---'' @ [newline, newline] @ ddd_CREDIT_COMMENT @ body
           \<and> prefix ''<!--'' ddd_CREDIT_COMMENT)"
proof -
  have s: "startswith ''---\<newline>name: x\<newline>---\<newline>\<newline>Body'' ''---''"
    by (simp add: startswith_def)
  have d: "sublist ''---'' (drop 3 ''---\<newline>name: x\<newline>---\<newline>\<newline>Body'')"
    using sublist_example_frontmatter by simp
  from s d ddd_inject_credit_strips_body [OF s d] show ?thesis by blast
qed

text \<open>
  Claim C10, as amended. For a content that does not begin with \<open>---\<close>, or that holds no further
  \<open>---\<close> behind the opening one, \<open>update_frontmatter_name\<close> returns the content unchanged,
  whatever the new name is.
\<close>

theorem update_frontmatter_name_identity:
  assumes "\<not> startswith content ''---'' \<or> \<not> sublist ''---'' (drop 3 content)"
  shows "update_frontmatter_name content new_name = content"
  using assms by (intro update_frontmatter_name_plain) blast

text \<open>The theorem of C10 at a content without frontmatter.\<close>

theorem update_frontmatter_name_identity_witness:
  "\<not> startswith ''# Title'' ''---''
   \<and> update_frontmatter_name ''# Title'' ''ddd-1-plan'' = ''# Title''"
proof -
  have h: "\<not> startswith ''# Title'' ''---''"
    by (simp add: startswith_def)
  then have "\<not> startswith ''# Title'' ''---'' \<or> \<not> sublist ''---'' (drop 3 ''# Title'')" ..
  from h update_frontmatter_name_identity [OF this] show ?thesis by blast
qed

text \<open>
  Claim C10 as stated fails: a content with exactly one further \<open>---\<close> behind the opening one
  has fewer than two of them, and its \<open>name\<close> field is rewritten.
\<close>

theorem update_frontmatter_name_counterexample:
  "startswith ''---\<newline>name: a\<newline>---\<newline>body'' ''---''
   \<and> split ''---'' 9 (drop 3 ''---\<newline>name: a\<newline>---\<newline>body'') = [''\<newline>name: a\<newline>'', ''\<newline>body'']
   \<and> update_frontmatter_name ''---\<newline>name: a\<newline>---\<newline>body'' ''b'' = ''---\<newline>name: b\<newline>---\<newline>body''
   \<and> update_frontmatter_name ''---\<newline>name: a\<newline>---\<newline>body'' ''b'' \<noteq> ''---\<newline>name: a\<newline>---\<newline>body''"
  by code_simp

section \<open>The claims about the assemblers\<close>

text \<open>
  Claim C3. Each of the five assemblers, called with \<open>dry_run = True\<close>, writes no file and
  creates no directory, so that the plugin tree is the same before and after; and the paths it
  reports, which are the paths it returns, are the paths that the same call with
  \<open>dry_run = False\<close> writes.
\<close>

theorem dry_run_never_mutates:
  "dry_run_faithful (sync_philosophy plugin_root src source_dir) (\<lambda>p. [p])
   \<and> dry_run_faithful (sync_module_development plugin_root src source_dir) (\<lambda>p. [p])
   \<and> dry_run_faithful (convert_agents_to_commands plugin_root src source_dir) (\<lambda>ps. ps)
   \<and> dry_run_faithful (copy_context_to_skills plugin_root src source_dir) (\<lambda>ps. ps)
   \<and> dry_run_faithful (generate_skill_md plugin_root) (\<lambda>p. [p])"
  by (intro conjI sync_philosophy_dry sync_module_development_dry convert_agents_dry
      copy_context_dry generate_skill_md_dry)

text \<open>
  Claim C4. When the source file of the single-file artifact is absent, \<open>sync_philosophy\<close>
  raises before it has any effect; when the contracts directory or its \<open>README.md\<close> is absent,
  \<open>sync_module_development\<close> does. In both cases a run of \<open>main\<close> ends with a non-zero status,
  and the destination file of the artifact is not written: it is neither created nor modified.
\<close>

theorem missing_mandatory_source_aborts:
  "(read_file src (tmp_dir @ [''amplifier-core'', ''docs'', ''DESIGN_PHILOSOPHY.md'']) = None \<longrightarrow>
      sync_philosophy plugin_root src (tmp_dir @ [''amplifier-core'']) dry_run =
        (Inl (FileNotFoundError ''Source file not found: ''
               (tmp_dir @ [''amplifier-core'', ''docs'', ''DESIGN_PHILOSOPHY.md''])), [])
      \<and> exit_status (core_main plugin_root tmp_dir (Some src) dry_run) \<noteq> 0
      \<and> plugin_root @ [''skills'', ''amplifier-philosophy'', ''SKILL.md'']
            \<notin> set (written (snd (core_main plugin_root tmp_dir (Some src) dry_run)))
      \<and> (\<forall>w. files (run_effects (snd (core_main plugin_root tmp_dir (Some src) dry_run)) w)
                 (plugin_root @ [''skills'', ''amplifier-philosophy'', ''SKILL.md''])
               = files w (plugin_root @ [''skills'', ''amplifier-philosophy'', ''SKILL.md''])))
   \<and> (\<not> dir_exists src (tmp_dir @ [''amplifier-core'', ''docs'', ''contracts''])
        \<or> read_file src (tmp_dir @ [''amplifier-core'', ''docs'', ''contracts'', ''README.md'']) = None \<longrightarrow>
      (\<exists>e. sync_module_development plugin_root src (tmp_dir @ [''amplifier-core'']) dry_run = (Inl e, []))
      \<and> exit_status (core_main plugin_root tmp_dir (Some src) dry_run) \<noteq> 0
      \<and> plugin_root @ [''skills'', ''module-development'', ''SKILL.md'']
            \<notin> set (written (snd (core_main plugin_root tmp_dir (Some src) dry_run)))
      \<and> (\<forall>w. files (run_effects (snd (core_main plugin_root tmp_dir (Some src) dry_run)) w)
                 (plugin_root @ [''skills'', ''module-development'', ''SKILL.md''])
               = files w (plugin_root @ [''skills'', ''module-development'', ''SKILL.md''])))"
proof (intro conjI impI allI)
  assume a: "read_file src (tmp_dir @ [''amplifier-core'', ''docs'', ''DESIGN_PHILOSOPHY.md'']) = None"
  show "sync_philosophy plugin_root src (tmp_dir @ [''amplifier-core'']) dry_run =
        (Inl (FileNotFoundError ''Source file not found: ''
               (tmp_dir @ [''amplifier-core'', ''docs'', ''DESIGN_PHILOSOPHY.md''])), [])"
    using sync_philosophy_missing [of src "tmp_dir @ [''amplifier-core'']"] a by simp
  show "exit_status (core_main plugin_root tmp_dir (Some src) dry_run) \<noteq> 0"
    using core_main_philosophy_missing(1) [OF a] by simp
  show n: "plugin_root @ [''skills'', ''amplifier-philosophy'', ''SKILL.md'']
            \<notin> set (written (snd (core_main plugin_root tmp_dir (Some src) dry_run)))"
    using core_main_philosophy_missing(2) [OF a] by simp
  fix w
  show "files (run_effects (snd (core_main plugin_root tmp_dir (Some src) dry_run)) w)
                 (plugin_root @ [''skills'', ''amplifier-philosophy'', ''SKILL.md''])
               = files w (plugin_root @ [''skills'', ''amplifier-philosophy'', ''SKILL.md''])"
    using n by (rule files_untouched)
next
  assume a: "\<not> dir_exists src (tmp_dir @ [''amplifier-core'', ''docs'', ''contracts''])
        \<or> read_file src (tmp_dir @ [''amplifier-core'', ''docs'', ''contracts'', ''README.md'']) = None"
  show "\<exists>e. sync_module_development plugin_root src (tmp_dir @ [''amplifier-core'']) dry_run = (Inl e, [])"
    using a by (intro sync_module_development_missing) simp
  show "exit_status (core_main plugin_root tmp_dir (Some src) dry_run) \<noteq> 0"
    using core_main_contracts_missing(1) [OF a] by simp
  show n: "plugin_root @ [''skills'', ''module-development'', ''SKILL.md'']
            \<notin> set (written (snd (core_main plugin_root tmp_dir (Some src) dry_run)))"
    using core_main_contracts_missing(2) [OF a] .
  fix w
  show "files (run_effects (snd (core_main plugin_root tmp_dir (Some src) dry_run)) w)
                 (plugin_root @ [''skills'', ''module-development'', ''SKILL.md''])
               = files w (plugin_root @ [''skills'', ''module-development'', ''SKILL.md''])"
    using n by (rule files_untouched)
qed

text \<open>The theorem of C4 at the empty clone, where every mandatory source is absent.\<close>

theorem missing_mandatory_source_aborts_witness:
  "read_file empty_clone ([''tmp''] @ [''amplifier-core'', ''docs'', ''DESIGN_PHILOSOPHY.md'']) = None
   \<and> \<not> dir_exists empty_clone ([''tmp''] @ [''amplifier-core'', ''docs'', ''contracts''])
   \<and> sync_philosophy [''plugin''] empty_clone ([''tmp''] @ [''amplifier-core'']) False =
        (Inl (FileNotFoundError ''Source file not found: ''
               ([''tmp''] @ [''amplifier-core'', ''docs'', ''DESIGN_PHILOSOPHY.md''])), [])
   \<and> (\<exists>e. sync_module_development [''plugin''] empty_clone ([''tmp''] @ [''amplifier-core'']) False = (Inl e, []))
   \<and> exit_status (core_main [''plugin''] [''tmp''] (Some empty_clone) False) \<noteq> 0
   \<and> [''plugin''] @ [''skills'', ''module-development'', ''SKILL.md'']
            \<notin> set (written (snd (core_main [''plugin''] [''tmp''] (Some empty_clone) False)))"
proof -
  have h1: "read_file empty_clone ([''tmp''] @ [''amplifier-core'', ''docs'', ''DESIGN_PHILOSOPHY.md'']) = None"
    by (simp add: read_file_def empty_clone_def)
  have h2: "\<not> dir_exists empty_clone ([''tmp''] @ [''amplifier-core'', ''docs'', ''contracts''])"
    by (simp add: dir_exists_def empty_clone_def)
  from h1 h2 missing_mandatory_source_aborts [of empty_clone "[''tmp'']" "[''plugin'']" False]
  show ?thesis by blast
qed

text \<open>
  Claim C5. In a merge run, that is, one whose overview \<open>README.md\<close> is present,
  \<open>sync_module_development\<close> returns without raising whichever secondary files are absent; it
  logs one warning for each absent file, leaves out the fragments of those files only, and
  joins the fragments that are present in the fixed order, each behind its separator.
\<close>

theorem missing_optional_fragment:
  assumes "read_file src (source_dir @ [''docs'', ''contracts'', ''README.md'']) = Some readme_content"
  shows "fst (sync_module_development plugin_root src source_dir dry_run)
           = Inr (plugin_root @ [''skills'', ''module-development'', ''SKILL.md''])
    \<and> warnings (snd (sync_module_development plugin_root src source_dir dry_run))
           = module_development_warnings src source_dir
    \<and> written (snd (sync_module_development plugin_root src source_dir False))
           = [plugin_root @ [''skills'', ''module-development'', ''SKILL.md'']]
    \<and> (\<forall>w. files (run_effects (snd (sync_module_development plugin_root src source_dir False)) w)
                (plugin_root @ [''skills'', ''module-development'', ''SKILL.md''])
              = Some (module_development_content src source_dir readme_content))"
proof -
  have w: "warnings (map Print (module_development_warnings src source_dir))
      = module_development_warnings src source_dir"
    by (simp add: module_development_warnings_def warnings_append warnings_map_Print_contract
        split: option.splits)
  show ?thesis
    by (simp add: sync_module_development_eq [OF assms] warnings_append w written_append
        printed_traces run_effects_append run_effects_Cons run_effects_Nil)
qed

text \<open>
  The theorem of C5 at a clone that holds the overview and one of the five contract files, and
  no \<open>MODULE_SOURCE_PROTOCOL.md\<close>.
\<close>

theorem missing_optional_fragment_witness:
  "read_file core_clone ([''tmp'', ''amplifier-core''] @ [''docs'', ''contracts'', ''README.md''])
     = Some ''See [tools](TOOL_CONTRACT.md) and [design](../DESIGN.md)''
   \<and> fst (sync_module_development [''plugin''] core_clone [''tmp'', ''amplifier-core''] False)
       = Inr ([''plugin''] @ [''skills'', ''module-development'', ''SKILL.md''])
   \<and> warnings (snd (sync_module_development [''plugin''] core_clone [''tmp'', ''amplifier-core''] False))
       = [Contract_file_not_found [''tmp'', ''amplifier-core'', ''docs'', ''contracts'', ''TOOL_CONTRACT.md''],
          Contract_file_not_found [''tmp'', ''amplifier-core'', ''docs'', ''contracts'', ''PROVIDER_CONTRACT.md''],
          Contract_file_not_found [''tmp'', ''amplifier-core'', ''docs'', ''contracts'', ''ORCHESTRATOR_CONTRACT.md''],
          Contract_file_not_found [''tmp'', ''amplifier-core'', ''docs'', ''contracts'', ''CONTEXT_CONTRACT.md''],
          Module_source_protocol_not_found]
   \<and> (\<forall>w. files (run_effects
                  (snd (sync_module_development [''plugin''] core_clone [''tmp'', ''amplifier-core''] False)) w)
                ([''plugin''] @ [''skills'', ''module-development'', ''SKILL.md''])
              = Some (MODULE_DEV_FRONTMATTER @ core_CREDIT_COMMENT
                  @ ''See [tools](TOOL_CONTRACT.md) and [design](https://github.com/microsoft/amplifier-core/blob/main/DESIGN.md)''
                  @ [newline, newline] @ ''---'' @ [newline, newline] @ ''# Hooks''))"
proof -
  have h: "read_file core_clone ([''tmp'', ''amplifier-core''] @ [''docs'', ''contracts'', ''README.md''])
     = Some ''See [tools](TOOL_CONTRACT.md) and [design](../DESIGN.md)''"
    by (simp add: read_file_def core_clone_def)
  have w: "module_development_warnings core_clone [''tmp'', ''amplifier-core'']
       = [Contract_file_not_found [''tmp'', ''amplifier-core'', ''docs'', ''contracts'', ''TOOL_CONTRACT.md''],
          Contract_file_not_found [''tmp'', ''amplifier-core'', ''docs'', ''contracts'', ''PROVIDER_CONTRACT.md''],
          Contract_file_not_found [''tmp'', ''amplifier-core'', ''docs'', ''contracts'', ''ORCHESTRATOR_CONTRACT.md''],
          Contract_file_not_found [''tmp'', ''amplifier-core'', ''docs'', ''contracts'', ''CONTEXT_CONTRACT.md''],
          Module_source_protocol_not_found]"
    by code_simp
  have c: "module_development_content core_clone [''tmp'', ''amplifier-core'']
         ''See [tools](TOOL_CONTRACT.md) and [design](../DESIGN.md)''
       = MODULE_DEV_FRONTMATTER @ core_CREDIT_COMMENT
                  @ ''See [tools](TOOL_CONTRACT.md) and [design](https://github.com/microsoft/amplifier-core/blob/main/DESIGN.md)''
                  @ [newline, newline] @ ''---'' @ [newline, newline] @ ''# Hooks''"
    by code_simp
  from h missing_optional_fragment [OF h, of "[''plugin'']" False] w c
  show ?thesis by simp
qed

text \<open>
  Claim C6, as amended. Provided the agents directory exists: for every entry of
  \<open>AGENT_TO_COMMAND\<close> whose source file exists, \<open>convert_agents_to_commands\<close> writes exactly
  one destination file, named by the entry, whose content is the transformed source with the
  credit banner injected and the \<open>name\<close> field of the frontmatter rewritten to the name of
  the destination file without its \<open>.md\<close>; an entry whose source file is absent has no
  destination file written and exactly one warning logged; and the call returns without raising.
\<close>

theorem convert_agents_per_entry:
  assumes "dir_exists src (source_dir @ [''agents''])"
    and "(agent_file, command_file) \<in> set AGENT_TO_COMMAND"
  shows "\<exists>converted es.
     convert_agents_to_commands plugin_root src source_dir False = (Inr converted, es)
     \<and> written es = converted
     \<and> command_file = replace ''.md'' [] command_file @ ''.md''
     \<and> (case read_file src (source_dir @ [''agents'', agent_file]) of
          Some content \<Rightarrow>
            count_list (written es) (plugin_root @ [''commands'', command_file]) = 1
            \<and> (\<forall>w. files (run_effects es w) (plugin_root @ [''commands'', command_file])
                   = Some (update_frontmatter_name
                             (ddd_inject_credit (ddd_transform_references content))
                             (replace ''.md'' [] command_file)))
            \<and> count_list (warnings es) (Not_found_skipping (source_dir @ [''agents'', agent_file])) = 0
        | None \<Rightarrow>
            count_list (written es) (plugin_root @ [''commands'', command_file]) = 0
            \<and> (\<forall>w. files (run_effects es w) (plugin_root @ [''commands'', command_file])
                   = files w (plugin_root @ [''commands'', command_file]))
            \<and> count_list (warnings es) (Not_found_skipping (source_dir @ [''agents'', agent_file])) = 1)"
proof -
  let ?ad = "source_dir @ [''agents'']" and ?cd = "plugin_root @ [''commands'']"
  let ?es = "concat (map (agent_effects src ?ad ?cd False) AGENT_TO_COMMAND)"
  let ?t = "plugin_root @ [''commands'', command_file]"
  let ?s = "source_dir @ [''agents'', agent_file]"
  have t: "?cd @ [command_file] = ?t" and s: "?ad @ [agent_file] = ?s" by simp_all
  note d = AGENT_TO_COMMAND_distinct
  have wr: "written ?es = present_commands src ?ad ?cd AGENT_TO_COMMAND"
    by (rule agent_effects_apply)
  have wa: "warnings ?es = absent_agents src ?ad AGENT_TO_COMMAND"
    by (rule agent_effects_warnings)
  have body: "case read_file src ?s of
          Some content \<Rightarrow>
            count_list (written ?es) ?t = 1
            \<and> (\<forall>w. files (run_effects ?es w) ?t
                   = Some (update_frontmatter_name
                             (ddd_inject_credit (ddd_transform_references content))
                             (replace ''.md'' [] command_file)))
            \<and> count_list (warnings ?es) (Not_found_skipping ?s) = 0
        | None \<Rightarrow>
            count_list (written ?es) ?t = 0
            \<and> (\<forall>w. files (run_effects ?es w) ?t = files w ?t)
            \<and> count_list (warnings ?es) (Not_found_skipping ?s) = 1"
  proof (cases "read_file src ?s")
    case None
    have "?t \<notin> set (present_commands src ?ad ?cd AGENT_TO_COMMAND)"
    proof
      assume "?t \<in> set (present_commands src ?ad ?cd AGENT_TO_COMMAND)"
      then obtain a' where a': "(a', command_file) \<in> set AGENT_TO_COMMAND"
        "read_file src (?ad @ [a']) \<noteq> None"
        unfolding present_commands_mem t [symmetric] by auto
      from same_snd_same_fst [OF d(2) assms(2) a'(1)] have "a' = agent_file" by simp
      with a'(2) None s show False by simp
    qed
    then have n: "?t \<notin> set (written ?es)" unfolding wr .
    have "Not_found_skipping (?ad @ [agent_file]) \<in> set (absent_agents src ?ad AGENT_TO_COMMAND)"
      unfolding absent_agents_mem using assms(2) None s by auto
    then have "count_list (absent_agents src ?ad AGENT_TO_COMMAND) (Not_found_skipping (?ad @ [agent_file])) = 1"
      by (intro count_list_distinct absent_agents_distinct d(1))
    then have c1: "count_list (warnings ?es) (Not_found_skipping ?s) = 1"
      by (simp only: wa s)
    have c0: "count_list (written ?es) ?t = 0"
      using count_list_0_iff [of "written ?es" ?t] n by blast
    from n have "\<forall>w. files (run_effects ?es w) ?t = files w ?t"
      by (intro allI files_untouched)
    with c0 c1 None show ?thesis by (simp only: option.case simp_thms)
  next
    case (Some content)
    have "?cd @ [command_file] \<in> set (present_commands src ?ad ?cd AGENT_TO_COMMAND)"
      unfolding present_commands_mem using assms(2) Some s by auto
    then have "count_list (present_commands src ?ad ?cd AGENT_TO_COMMAND) (?cd @ [command_file]) = 1"
      by (intro count_list_distinct present_commands_distinct d(2))
    then have c1: "count_list (written ?es) ?t = 1" by (simp only: wr t)
    have "Not_found_skipping (?ad @ [agent_file]) \<notin> set (absent_agents src ?ad AGENT_TO_COMMAND)"
      unfolding absent_agents_mem using Some s by auto
    then have "Not_found_skipping ?s \<notin> set (warnings ?es)"
      unfolding wa s .
    then have c0: "count_list (warnings ?es) (Not_found_skipping ?s) = 0"
      using count_list_0_iff [of "warnings ?es" "Not_found_skipping ?s"] by blast
    from Some s have r: "read_file src (?ad @ [agent_file]) = Some content" by simp
    have "\<forall>w. files (run_effects ?es w) ?t = Some (command_content content command_file)"
      using agent_files [OF d(2) assms(2) r, of ?cd] by (simp only: t simp_thms)
    then have "\<forall>w. files (run_effects ?es w) ?t
                   = Some (update_frontmatter_name
                             (ddd_inject_credit (ddd_transform_references content))
                             (replace ''.md'' [] command_file))"
      unfolding command_content_def .
    with c1 c0 Some show ?thesis by (simp only: option.case simp_thms)
  qed
  have "convert_agents_to_commands plugin_root src source_dir False
      = (Inr (present_commands src ?ad ?cd AGENT_TO_COMMAND), ?es)"
    by (rule convert_agents_eq [OF assms(1)])
  with wr body command_stem [OF assms(2)] show ?thesis by blast
qed

text \<open>
  The theorem of C6 at a clone that holds the first agent file only: the first entry is
  converted, the third is skipped with a warning.
\<close>

theorem convert_agents_per_entry_witness:
  "dir_exists ddd_clone ([''tmp'', ''ddd''] @ [''agents''])
   \<and> (''planning-architect.md'', ''ddd-1-plan.md'') \<in> set AGENT_TO_COMMAND
   \<and> (''code-planner.md'', ''ddd-3-code-plan.md'') \<in> set AGENT_TO_COMMAND
   \<and> (\<exists>converted es.
         convert_agents_to_commands [''plugin''] ddd_clone [''tmp'', ''ddd''] False = (Inr converted, es)
         \<and> written es = converted
         \<and> count_list (written es) ([''plugin''] @ [''commands'', ''ddd-1-plan.md'']) = 1
         \<and> (\<forall>w. files (run_effects es w) ([''plugin''] @ [''commands'', ''ddd-1-plan.md''])
                = Some (''---'' @ [newline] @ ''name: ddd-1-plan'' @ [newline] @ ''---''
                          @ [newline, newline] @ ddd_CREDIT_COMMENT
                          @ ''Read @skills/ddd-guide/references/phases.md''))
         \<and> count_list (written es) ([''plugin''] @ [''commands'', ''ddd-3-code-plan.md'']) = 0
         \<and> count_list (warnings es)
               (Not_found_skipping ([''tmp'', ''ddd''] @ [''agents'', ''code-planner.md''])) = 1)"
proof -
  have d: "dir_exists ddd_clone ([''tmp'', ''ddd''] @ [''agents''])"
    by (simp add: dir_exists_def ddd_clone_def)
  have m1: "(''planning-architect.md'', ''ddd-1-plan.md'') \<in> set AGENT_TO_COMMAND"
    and m3: "(''code-planner.md'', ''ddd-3-code-plan.md'') \<in> set AGENT_TO_COMMAND"
    by (simp_all add: AGENT_TO_COMMAND_def)
  have r1: "read_file ddd_clone ([''tmp'', ''ddd''] @ [''agents'', ''planning-architect.md''])
      = Some (''---'' @ [newline] @ ''name: planning-architect'' @ [newline] @ ''---'' @ [newline]
            @ ''Read @ddd:context/phases.md'')"
    and r3: "read_file ddd_clone ([''tmp'', ''ddd''] @ [''agents'', ''code-planner.md'']) = None"
    by (simp_all add: read_file_def ddd_clone_def)
  have c: "update_frontmatter_name
        (ddd_inject_credit (ddd_transform_references
           (''---'' @ [newline] @ ''name: planning-architect'' @ [newline] @ ''---'' @ [newline]
            @ ''Read @ddd:context/phases.md'')))
        (replace ''.md'' [] ''ddd-1-plan.md'')
      = ''---'' @ [newline] @ ''name: ddd-1-plan'' @ [newline] @ ''---''
          @ [newline, newline] @ ddd_CREDIT_COMMENT @ ''Read @skills/ddd-guide/references/phases.md''"
    by code_simp
  from convert_agents_per_entry [OF d m1, where plugin_root = "[''plugin'']"]
  obtain converted es where
    e: "convert_agents_to_commands [''plugin''] ddd_clone [''tmp'', ''ddd''] False = (Inr converted, es)"
      "written es = converted"
    and b1: "case read_file ddd_clone ([''tmp'', ''ddd''] @ [''agents'', ''planning-architect.md'']) of
          Some content \<Rightarrow>
            count_list (written es) ([''plugin''] @ [''commands'', ''ddd-1-plan.md'']) = 1
            \<and> (\<forall>w. files (run_effects es w) ([''plugin''] @ [''commands'', ''ddd-1-plan.md''])
                   = Some (update_frontmatter_name
                             (ddd_inject_credit (ddd_transform_references content))
                             (replace ''.md'' [] ''ddd-1-plan.md'')))
            \<and> count_list (warnings es)
                  (Not_found_skipping ([''tmp'', ''ddd''] @ [''agents'', ''planning-architect.md''])) = 0
        | None \<Rightarrow>
            count_list (written es) ([''plugin''] @ [''commands'', ''ddd-1-plan.md'']) = 0
            \<and> (\<forall>w. files (run_effects es w) ([''plugin''] @ [''commands'', ''ddd-1-plan.md''])
                   = files w ([''plugin''] @ [''commands'', ''ddd-1-plan.md'']))
            \<and> count_list (warnings es)
                  (Not_found_skipping ([''tmp'', ''ddd''] @ [''agents'', ''planning-architect.md''])) = 1"
    by blast
  from b1 have f1: "count_list (written es) ([''plugin''] @ [''commands'', ''ddd-1-plan.md'']) = 1"
    and f2: "\<forall>w. files (run_effects es w) ([''plugin''] @ [''commands'', ''ddd-1-plan.md''])
                = Some (''---'' @ [newline] @ ''name: ddd-1-plan'' @ [newline] @ ''---''
                          @ [newline, newline] @ ddd_CREDIT_COMMENT
                          @ ''Read @skills/ddd-guide/references/phases.md'')"
    unfolding r1 option.case c by blast+
  from convert_agents_per_entry [OF d m3, where plugin_root = "[''plugin'']"] e(1)
  have b3: "case read_file ddd_clone ([''tmp'', ''ddd''] @ [''agents'', ''code-planner.md'']) of
          Some content \<Rightarrow>
            count_list (written es) ([''plugin''] @ [''commands'', ''ddd-3-code-plan.md'']) = 1
            \<and> (\<forall>w. files (run_effects es w) ([''plugin''] @ [''commands'', ''ddd-3-code-plan.md''])
                   = Some (update_frontmatter_name
                             (ddd_inject_credit (ddd_transform_references content))
                             (replace ''.md'' [] ''ddd-3-code-plan.md'')))
            \<and> count_list (warnings es)
                  (Not_found_skipping ([''tmp'', ''ddd''] @ [''agents'', ''code-planner.md''])) = 0
        | None \<Rightarrow>
            count_list (written es) ([''plugin''] @ [''commands'', ''ddd-3-code-plan.md'']) = 0
            \<and> (\<forall>w. files (run_effects es w) ([''plugin''] @ [''commands'', ''ddd-3-code-plan.md''])
                   = files w ([''plugin''] @ [''commands'', ''ddd-3-code-plan.md'']))
            \<and> count_list (warnings es)
                  (Not_found_skipping ([''tmp'', ''ddd''] @ [''agents'', ''code-planner.md''])) = 1"
    by force
  from b3 have f3: "count_list (written es) ([''plugin''] @ [''commands'', ''ddd-3-code-plan.md'']) = 0"
    and f4: "count_list (warnings es)
                  (Not_found_skipping ([''tmp'', ''ddd''] @ [''agents'', ''code-planner.md''])) = 1"
    unfolding r3 option.case by blast+
  from d m1 m3 e f1 f2 f3 f4 show ?thesis by blast
qed

text \<open>
  Claim C6 as stated fails when the agents directory is absent: every entry's source file is
  absent then, yet the call raises before the loop and logs no warning at all.
\<close>

theorem convert_agents_counterexample:
  "read_file empty_clone ([''tmp'', ''ddd''] @ [''agents'', ''planning-architect.md'']) = None
   \<and> (''planning-architect.md'', ''ddd-1-plan.md'') \<in> set AGENT_TO_COMMAND
   \<and> convert_agents_to_commands [''plugin''] empty_clone [''tmp'', ''ddd''] False
       = (Inl (FileNotFoundError ''agents directory not found: '' [''tmp'', ''ddd'', ''agents'']), [])
   \<and> warnings (snd (convert_agents_to_commands [''plugin''] empty_clone [''tmp'', ''ddd''] False)) = []"
  by (simp add: convert_agents_to_commands_def dir_exists_def read_file_def empty_clone_def
      AGENT_TO_COMMAND_def)

text \<open>
  Claim C8. For every file below the context directory of the clone, at any depth, whose name
  ends in \<open>.md\<close>, \<open>copy_context_to_skills\<close> writes exactly one destination file, at the same
  relative path below the references directory; its content is the source with the references
  transformed and the credit banner injected, and nothing else is put in front of it. The
  paths of a clone are taken to name one file each.
\<close>

theorem copy_context_mirrors:
  assumes "distinct (map fst (src_files src))"
    and "(source_dir @ [''context''] @ relative_path, content) \<in> set (src_files src)"
    and "relative_path \<noteq> []"
    and "endswith (last relative_path) ''.md''"
  shows "\<exists>copied es.
     copy_context_to_skills plugin_root src source_dir False = (Inr copied, es)
     \<and> written es = copied
     \<and> count_list (written es)
          (plugin_root @ [''skills'', ''ddd-guide'', ''references''] @ relative_path) = 1
     \<and> (\<forall>w. files (run_effects es w)
                (plugin_root @ [''skills'', ''ddd-guide'', ''references''] @ relative_path)
              = Some (ddd_inject_credit (ddd_transform_references content)))"
proof -
  let ?ctx = "source_dir @ [''context'']"
  let ?refs = "plugin_root @ [''skills'', ''ddd-guide'', ''references'']"
  let ?l = "rglob_md src ?ctx"
  let ?es = "concat (map (mirror_effects ?ctx ?refs False) ?l)"
  let ?p = "?ctx @ relative_path"
  let ?t = "plugin_root @ [''skills'', ''ddd-guide'', ''references''] @ relative_path"
  have p: "source_dir @ [''context''] @ relative_path = ?p" by simp
  have m: "(?p, content) \<in> set (src_files src)" using assms(2) by simp
  then have "dir_exists src ?ctx" using assms(3) by (rule file_below_implies_dir)
  then have eq: "copy_context_to_skills plugin_root src source_dir False
      = (Inr (map (\<lambda>e. mirror_target ?ctx ?refs (fst e)) ?l), ?es)"
    by (rule copy_context_eq)
  have l: "(?p, content) \<in> set ?l"
    using m assms(3,4) by (simp add: rglob_md_def strict_prefix_def)
  have t: "mirror_target ?ctx ?refs ?p = ?t" by (simp add: mirror_target_def)
  have wr: "written ?es = map (\<lambda>e. mirror_target ?ctx ?refs (fst e)) ?l"
    by (rule mirror_effects_apply)
  have dl: "distinct (map fst ?l)" using assms(1) by (rule rglob_md_distinct)
  have "distinct (written ?es)"
    unfolding wr using dl rglob_md_prefix by (rule mirror_targets_distinct)
  moreover have "?t \<in> set (written ?es)"
    unfolding wr t [symmetric] using l by force
  ultimately have c: "count_list (written ?es) ?t = 1" by (rule count_list_distinct)
  have f: "\<forall>w. files (run_effects ?es w) ?t
             = Some (ddd_inject_credit (ddd_transform_references content))"
    using mirror_files [OF dl rglob_md_prefix l, of ?refs] unfolding t by blast
  from eq wr c f show ?thesis by blast
qed

text \<open>The theorem of C8 at a clone with one Markdown file two levels below the context directory.\<close>

theorem copy_context_mirrors_witness:
  "distinct (map fst (src_files ddd_clone))
   \<and> ([''tmp'', ''ddd''] @ [''context''] @ [''phases'', ''plan.md''], ''See @ddd:core'')
        \<in> set (src_files ddd_clone)
   \<and> [''phases'', ''plan.md''] \<noteq> []
   \<and> endswith (last [''phases'', ''plan.md'']) ''.md''
   \<and> (\<exists>copied es.
         copy_context_to_skills [''plugin''] ddd_clone [''tmp'', ''ddd''] False = (Inr copied, es)
         \<and> written es = copied
         \<and> count_list (written es)
              ([''plugin''] @ [''skills'', ''ddd-guide'', ''references''] @ [''phases'', ''plan.md'']) = 1
         \<and> (\<forall>w. files (run_effects es w)
                ([''plugin''] @ [''skills'', ''ddd-guide'', ''references''] @ [''phases'', ''plan.md''])
              = Some (ddd_CREDIT_COMMENT @ ''See @skills/ddd-guide/references/core'')))"
proof -
  have h1: "distinct (map fst (src_files ddd_clone))"
    by (simp add: ddd_clone_def)
  have h2: "([''tmp'', ''ddd''] @ [''context''] @ [''phases'', ''plan.md''], ''See @ddd:core'')
        \<in> set (src_files ddd_clone)"
    by (simp add: ddd_clone_def)
  have h3: "[''phases'', ''plan.md''] \<noteq> []" by simp
  have h4: "endswith (last [''phases'', ''plan.md'']) ''.md''"
    by (simp add: endswith_def suffix_to_prefix)
  have c: "ddd_inject_credit (ddd_transform_references ''See @ddd:core'')
      = ddd_CREDIT_COMMENT @ ''See @skills/ddd-guide/references/core''"
    by code_simp
  from copy_context_mirrors [OF h1 h2 h3 h4, where plugin_root = "[''plugin'']"]
  have "\<exists>copied es.
         copy_context_to_skills [''plugin''] ddd_clone [''tmp'', ''ddd''] False = (Inr copied, es)
         \<and> written es = copied
         \<and> count_list (written es)
              ([''plugin''] @ [''skills'', ''ddd-guide'', ''references''] @ [''phases'', ''plan.md'']) = 1
         \<and> (\<forall>w. files (run_effects es w)
                ([''plugin''] @ [''skills'', ''ddd-guide'', ''references''] @ [''phases'', ''plan.md''])
              = Some (ddd_CREDIT_COMMENT @ ''See @skills/ddd-guide/references/core''))"
    unfolding c .
  with h1 h2 h3 h4 show ?thesis by blast
qed


end
